theory Spec2Isabelle
  imports Complex_Main "HOL-Library.Word"
begin

section \<open>JavaScript primitives used by the analyzers\<close>

text \<open>
  The three edge functions modelled here are the hybrid URL analyzer
  (\<^verbatim>\<open>extractUrlFeatures\<close>, \<^verbatim>\<open>calculateRiskScore\<close>, \<^verbatim>\<open>serve\<close>), the heuristic logo analyzer
  (\<^verbatim>\<open>calcLogoHeuristic\<close>, \<^verbatim>\<open>serve\<close>) and the hybrid email analyzer
  (\<^verbatim>\<open>calculateEmailRiskScore\<close>, \<^verbatim>\<open>serve\<close>).

  Modelling conventions.
  \<^item> A JavaScript string is a \<open>string\<close>; the inputs considered are ASCII, where code units,
    code points and characters coincide.
  \<^item> A JavaScript number is a \<open>real\<close>, the value of a finite IEEE double. Where the
    oracle's confidence enters the arithmetic (the scaled oracle score, the weighted
    combination and the confidences computed from it), every operation is followed by the
    rounding of doubles, \<open>fl64\<close>. The rule scores are sums of a few multiples of 1/4, on
    which the operations of doubles are exact; they are written without rounding (the
    one quotient, \<^verbatim>\<open>(length - 100) / 20 * 5\<close>, is a quarter of an integer below its cap 15).
    The entropy and the ratios among the features are exact reals, their rounding is not
    modelled: they enter the examples only through the comparisons with the thresholds
    4.5 and 0.3 of the rule table.
    Infinities are not modelled. The only \<^verbatim>\<open>NaN\<close> the code can produce from finite
    numbers, \<open>0 / 0\<close> in the digit ratio, is modelled explicitly (\<open>NaN\<close>).
  \<^item> What lies outside the repository is an input of the model: the WHATWG URL parser
    (\<^verbatim>\<open>new URL\<close>) is a parameter \<open>parseURL\<close>, the result of the \<^verbatim>\<open>fetch\<close> to the AI gateway
    and of decoding its answer is a value of type \<open>oracle_reply\<close>, the random bytes of
    \<^verbatim>\<open>crypto.getRandomValues\<close> and the clock are arguments.
\<close>

datatype verdict = Safe | Suspicious | Phishing | Unknown

definition toLowerChar :: "char \<Rightarrow> char" where
  "toLowerChar c =
     (case map_of (zip ''ABCDEFGHIJKLMNOPQRSTUVWXYZ'' ''abcdefghijklmnopqrstuvwxyz'') c of
        Some l \<Rightarrow> l
      | None \<Rightarrow> c)"

definition toLowerCase :: "string \<Rightarrow> string" where
  "toLowerCase s = map toLowerChar s"

definition startsWith :: "string \<Rightarrow> string \<Rightarrow> bool" where
  "startsWith s p = (take (length p) s = p)"

definition endsWith :: "string \<Rightarrow> string \<Rightarrow> bool" where
  "endsWith s p = (length p \<le> length s \<and> drop (length s - length p) s = p)"

fun includesStr :: "string \<Rightarrow> string \<Rightarrow> bool" where
  "includesStr [] p = (p = [])"
| "includesStr (c # cs) p = (startsWith (c # cs) p \<or> includesStr cs p)"

text \<open>\<^verbatim>\<open>arr.join(sep)\<close>.\<close>

fun join :: "string \<Rightarrow> string list \<Rightarrow> string" where
  "join sep [] = []"
| "join sep [x] = x"
| "join sep (x # y # ys) = x @ sep @ join sep (y # ys)"

text \<open>\<^verbatim>\<open>str.split(c)\<close> for a one-character separator.\<close>

fun split :: "char \<Rightarrow> string \<Rightarrow> string list" where
  "split c [] = [[]]"
| "split c (x # xs) =
     (if x = c then [] # split c xs
      else (case split c xs of w # ws \<Rightarrow> (x # w) # ws | [] \<Rightarrow> [[x]]))"

text \<open>
  Rounding to the nearest double (binary64, 53 significant bits), ties to the even
  significand: \<open>ulp64 x\<close> is the distance between neighbouring doubles in the binade of
  \<open>x\<close>. The exponent range is not bounded: overflow and subnormal numbers are not
  modelled.
\<close>

definition roundTiesToEven :: "real \<Rightarrow> int" where
  "roundTiesToEven y =
     (let f = \<lfloor>y\<rfloor>; r = y - of_int f
      in if r < 1 / 2 then f else if r > 1 / 2 then f + 1 else if even f then f else f + 1)"

definition ulp64 :: "real \<Rightarrow> real" where
  "ulp64 x = 2 powr of_int (\<lfloor>log 2 \<bar>x\<bar>\<rfloor> - 52)"

definition fl64 :: "real \<Rightarrow> real" where
  "fl64 x = (if x = 0 then 0 else of_int (roundTiesToEven (x / ulp64 x)) * ulp64 x)"

text \<open>\<^verbatim>\<open>Math.round\<close>: the nearest integer, halves rounded up.\<close>

definition Math_round :: "real \<Rightarrow> real" where
  "Math_round x = of_int \<lfloor>x + 1 / 2\<rfloor>"

text \<open>
  \<^verbatim>\<open>[...new Set(xs)]\<close>: a \<^verbatim>\<open>Set\<close> keeps its elements in insertion order and ignores the
  insertion of an element it already holds.
\<close>

definition setAdd :: "'a list \<Rightarrow> 'a \<Rightarrow> 'a list" where
  "setAdd acc x = (if x \<in> set acc then acc else acc @ [x])"

definition newSet :: "'a list \<Rightarrow> 'a list" where
  "newSet xs = foldl setAdd [] xs"

text \<open>\<^verbatim>\<open>arr.slice(0, n)\<close>.\<close>

definition slice0 :: "nat \<Rightarrow> 'a list \<Rightarrow> 'a list" where
  "slice0 n xs = take n xs"

subsection \<open>The regular expressions of the URL analyzer\<close>

definition isDigit :: "char \<Rightarrow> bool" where
  "isDigit c = (c \<in> set ''0123456789'')"

definition isHexDigit :: "char \<Rightarrow> bool" where
  "isHexDigit c = (c \<in> set ''0123456789abcdefABCDEF'')"

definition isLetter :: "char \<Rightarrow> bool" where
  "isLetter c = (toLowerChar c \<in> set ''abcdefghijklmnopqrstuvwxyz'')"

definition isConsonant :: "char \<Rightarrow> bool" where
  "isConsonant c = (toLowerChar c \<in> set ''bcdfghjklmnpqrstvwxyz'')"

text \<open>\<^verbatim>\<open>(s.match(/c/g) || []).length\<close> for a class of single characters.\<close>

definition countMatches :: "(char \<Rightarrow> bool) \<Rightarrow> string \<Rightarrow> nat" where
  "countMatches P s = length (filter P s)"

text \<open>
  A pattern is matched against the front of a string, in continuation style: \<open>k\<close> is what
  has to match after it. \<open>reDigits13\<close> is \<^verbatim>\<open>\d{1,3}\<close>, \<open>reChar\<close> a literal character,
  \<open>reTest\<close> the unanchored \<^verbatim>\<open>regex.test(s)\<close>.
\<close>

definition reClass :: "(char \<Rightarrow> bool) \<Rightarrow> (string \<Rightarrow> bool) \<Rightarrow> string \<Rightarrow> bool" where
  "reClass P k s = (case s of [] \<Rightarrow> False | c # r \<Rightarrow> P c \<and> k r)"

definition reChar :: "char \<Rightarrow> (string \<Rightarrow> bool) \<Rightarrow> string \<Rightarrow> bool" where
  "reChar c k s = reClass (\<lambda>d. d = c) k s"

definition reDigits13 :: "(string \<Rightarrow> bool) \<Rightarrow> string \<Rightarrow> bool" where
  "reDigits13 k s =
     reClass isDigit (\<lambda>r1. k r1 \<or> reClass isDigit (\<lambda>r2. k r2 \<or> reClass isDigit k r2) r1) s"

fun reTest :: "(string \<Rightarrow> bool) \<Rightarrow> string \<Rightarrow> bool" where
  "reTest p [] = p []"
| "reTest p (c # cs) = (p (c # cs) \<or> reTest p cs)"

text \<open>\<^verbatim>\<open>/\d{1,3}\.\d{1,3}\.\d{1,3}\.\d{1,3}/\<close>\<close>

definition reIpAddress :: "string \<Rightarrow> bool" where
  "reIpAddress =
     reDigits13 (reChar CHR ''.'' (reDigits13 (reChar CHR ''.''
       (reDigits13 (reChar CHR ''.'' (reDigits13 (\<lambda>_. True)))))))"

text \<open>\<^verbatim>\<open>/%[0-9a-fA-F]{2}/\<close>\<close>

definition reEncoded :: "string \<Rightarrow> bool" where
  "reEncoded = reChar CHR ''%'' (reClass isHexDigit (reClass isHexDigit (\<lambda>_. True)))"

section \<open>The URL analyzer: feature extraction\<close>

text \<open>The parts of a parsed \<^verbatim>\<open>URL\<close> object that the code reads.\<close>

record url_parts =
  protocol :: string
  hostname :: string
  pathname :: string
  search :: string
  port :: string

text \<open>A JavaScript number that may be \<^verbatim>\<open>NaN\<close>.\<close>

datatype jsnum = Num real | NaN

text \<open>\<^verbatim>\<open>a / b\<close> for \<open>a \<ge> 0\<close>: \<open>0 / 0\<close> is \<^verbatim>\<open>NaN\<close>; a positive number over 0 does not occur
  where this is used (the numerator is at most the denominator).\<close>

definition jsDivide :: "nat \<Rightarrow> nat \<Rightarrow> jsnum" where
  "jsDivide a b = (if b = 0 then NaN else Num (real a / real b))"

text \<open>\<^verbatim>\<open>x > c\<close>: every comparison with \<^verbatim>\<open>NaN\<close> is false.\<close>

definition jsGreater :: "jsnum \<Rightarrow> real \<Rightarrow> bool" where
  "jsGreater x c = (case x of Num r \<Rightarrow> r > c | NaN \<Rightarrow> False)"

text \<open>Interface \<^verbatim>\<open>UrlFeatures\<close>; its field \<^verbatim>\<open>length\<close> is \<open>urlLength\<close> here.\<close>

record UrlFeatures =
  urlLength :: nat
  numDots :: nat
  numHyphens :: nat
  numUnderscores :: nat
  numSlashes :: nat
  numDigits :: nat
  numAtSymbols :: nat
  hasHttps :: bool
  hasIpAddress :: bool
  hasSuspiciousTld :: bool
  hasSuspiciousKeywords :: bool
  hasEncodedChars :: bool
  domainLength :: nat
  pathLength :: nat
  queryLength :: nat
  numSubdomains :: int
  hasPortNumber :: bool
  suspiciousKeywords :: "string list"
  entropy :: real
  consonantRatio :: real
  digitRatio :: jsnum

definition suspiciousKeywordList :: "string list" where
  "suspiciousKeywordList =
    [''login'', ''signin'', ''verify'', ''secure'', ''account'', ''update'', ''confirm'',
     ''banking'', ''password'', ''credential'', ''suspended'', ''unusual'', ''alert'',
     ''verify'', ''wallet'', ''paypal'', ''apple'', ''microsoft'', ''google'', ''facebook'',
     ''amazon'', ''netflix'', ''support'', ''help'', ''service'', ''billing'', ''payment'',
     ''authenticate'', ''validation'', ''security'', ''urgent'', ''immediately'', ''action'',
     ''required'', ''expire'', ''limited'', ''restore'', ''unlock'', ''reactivate'']"

definition suspiciousTlds :: "string list" where
  "suspiciousTlds =
    [''.xyz'', ''.top'', ''.tk'', ''.ml'', ''.ga'', ''.cf'', ''.gq'', ''.pw'', ''.cc'',
     ''.club'', ''.online'', ''.site'', ''.website'', ''.space'', ''.icu'', ''.buzz'']"

text \<open>
  \<^verbatim>\<open>calculateEntropy\<close>: \<open>freq[char]\<close> is the number of occurrences of \<open>char\<close>, the keys of
  \<open>freq\<close> are the distinct characters of the string; the loop subtracts \<open>p * log2 p\<close> for
  each key.
\<close>

definition calculateEntropy :: "string \<Rightarrow> real" where
  "calculateEntropy str =
     (let len = real (length str)
      in foldl (\<lambda>e c. let p = real (count_list str c) / len in e - p * log 2 p)
           0 (remdups str))"

definition calculateConsonantRatio :: "string \<Rightarrow> real" where
  "calculateConsonantRatio str =
     (let consonants = countMatches isConsonant str;
          letters = countMatches isLetter str
      in if letters > 0 then real consonants / real letters else 0)"

text \<open>
  \<^verbatim>\<open>extractUrlFeatures\<close>. \<open>parseURL s = None\<close> stands for \<^verbatim>\<open>new URL(s)\<close> throwing; the
  \<^verbatim>\<open>catch\<close> branch is the first branch below.
\<close>

definition extractUrlFeatures :: "(string \<Rightarrow> url_parts option) \<Rightarrow> string \<Rightarrow> UrlFeatures" where
  "extractUrlFeatures parseURL url =
    (case parseURL (if startsWith url ''http'' then url else ''https://'' @ url) of
       None \<Rightarrow>
         \<lparr> urlLength = length url,
           numDots = countMatches (\<lambda>c. c = CHR ''.'') url,
           numHyphens = countMatches (\<lambda>c. c = CHR ''-'') url,
           numUnderscores = countMatches (\<lambda>c. c = CHR ''_'') url,
           numSlashes = countMatches (\<lambda>c. c = CHR ''/'') url,
           numDigits = countMatches isDigit url,
           numAtSymbols = countMatches (\<lambda>c. c = CHR ''@'') url,
           hasHttps = False,
           hasIpAddress = reTest reIpAddress url,
           hasSuspiciousTld = list_ex (\<lambda>tld. includesStr (toLowerCase url) tld) suspiciousTlds,
           hasSuspiciousKeywords =
             list_ex (\<lambda>kw. includesStr (toLowerCase url) kw) suspiciousKeywordList,
           hasEncodedChars = reTest reEncoded url,
           domainLength = 0,
           pathLength = 0,
           queryLength = 0,
           numSubdomains = 0,
           hasPortNumber = False,
           suspiciousKeywords =
             filter (\<lambda>kw. includesStr (toLowerCase url) kw) suspiciousKeywordList,
           entropy = calculateEntropy url,
           consonantRatio = calculateConsonantRatio url,
           digitRatio = jsDivide (countMatches isDigit url) (length url) \<rparr>
     | Some parsedUrl \<Rightarrow>
         (let hostname = hostname parsedUrl;
              path = pathname parsedUrl;
              query = search parsedUrl;
              subdomains = int (length (split CHR ''.'' hostname)) - 2;
              foundKeywords =
                filter (\<lambda>kw. includesStr (toLowerCase url) kw) suspiciousKeywordList
          in
         \<lparr> urlLength = length url,
           numDots = countMatches (\<lambda>c. c = CHR ''.'') url,
           numHyphens = countMatches (\<lambda>c. c = CHR ''-'') url,
           numUnderscores = countMatches (\<lambda>c. c = CHR ''_'') url,
           numSlashes = countMatches (\<lambda>c. c = CHR ''/'') url,
           numDigits = countMatches isDigit url,
           numAtSymbols = countMatches (\<lambda>c. c = CHR ''@'') url,
           hasHttps = (protocol parsedUrl = ''https:''),
           hasIpAddress = reTest reIpAddress hostname,
           hasSuspiciousTld = list_ex (\<lambda>tld. endsWith (toLowerCase hostname) tld) suspiciousTlds,
           hasSuspiciousKeywords = (length foundKeywords > 0),
           hasEncodedChars = reTest reEncoded url,
           domainLength = length hostname,
           pathLength = length path,
           queryLength = length query,
           numSubdomains = max 0 subdomains,
           hasPortNumber = (port parsedUrl \<noteq> ''''),
           suspiciousKeywords = foundKeywords,
           entropy = calculateEntropy url,
           consonantRatio = calculateConsonantRatio hostname,
           digitRatio = jsDivide (countMatches isDigit url) (length url) \<rparr>))"

section \<open>The URL analyzer: rule-based score\<close>

record ScoreResult =
  score :: real
  threats :: "string list"

text \<open>
  One \<^verbatim>\<open>if (cond) { score += points; threats.push(message) }\<close> block, as a step on the
  pair of the two local variables \<open>(score, threats)\<close>. The blocks of a scorer are run in
  the order of the source.
\<close>

definition rule :: "real \<times> string list \<Rightarrow> bool \<times> real \<times> string \<Rightarrow> real \<times> string list" where
  "rule st r =
     (case r of (cond, points, message) \<Rightarrow>
        if cond then (fst st + points, snd st @ [message]) else st)"

definition urlRuleTable :: "UrlFeatures \<Rightarrow> (bool \<times> real \<times> string) list" where
  "urlRuleTable features =
    [(hasIpAddress features, 25, ''IP address used instead of domain name''),
     (\<not> hasHttps features, 10, ''Insecure HTTP connection''),
     (hasSuspiciousTld features, 20, ''Suspicious top-level domain detected''),
     (hasSuspiciousKeywords features,
        min 25 (real (length (suspiciousKeywords features)) * 8),
        ''Phishing keywords detected: '' @ join '', '' (take 3 (suspiciousKeywords features))),
     (urlLength features > 100,
        min 15 ((real (urlLength features) - 100) / 20 * 5), ''Abnormally long URL''),
     (numSubdomains features > 3,
        min 15 ((real_of_int (numSubdomains features) - 3) * 5),
        ''Multiple subdomain levels detected''),
     (numHyphens features > 3,
        min 10 ((real (numHyphens features) - 3) * 3), ''Excessive hyphens in URL''),
     (numAtSymbols features > 0, 20, ''URL contains @ symbol (potential redirect attack)''),
     (hasEncodedChars features, 10, ''URL contains encoded characters''),
     (hasPortNumber features, 15, ''Non-standard port number in URL''),
     (entropy features > 45 / 10, 10, ''High entropy domain (potentially auto-generated)''),
     (jsGreater (digitRatio features) (3 / 10), 10, ''High ratio of digits in URL'')]"

definition calculateRiskScore :: "UrlFeatures \<Rightarrow> ScoreResult" where
  "calculateRiskScore features =
     (let st = foldl rule (0, []) (urlRuleTable features)
      in \<lparr> score = min 100 (fst st), threats = snd st \<rparr>)"

section \<open>What the three request handlers share\<close>

text \<open>
  A request: its method and the outcome of \<^verbatim>\<open>await req.json()\<close> with the destructuring
  of the fields (\<open>JsonThrows\<close> when that throws).
\<close>

datatype 'b json_body = JsonThrows string | Body 'b

record 'b http_request =
  httpMethod :: string
  jsonBody :: "'b json_body"

text \<open>
  A response: the CORS preflight answer, an error (status and the \<^verbatim>\<open>error\<close> message), or
  the JSON result with status 200.
\<close>

datatype 'r response = Preflight | ErrorResponse nat string | Success 'r

text \<open>
  The AI gateway, from the point of view of a handler:
  \<^item> \<open>FetchThrows\<close>: \<^verbatim>\<open>fetch\<close> rejects (network failure);
  \<^item> \<open>NotOk status\<close>: a response with \<^verbatim>\<open>ok = false\<close>;
  \<^item> \<open>ResponseJsonThrows\<close>: status 2xx, and \<^verbatim>\<open>aiResponse.json()\<close> rejects;
  \<^item> \<open>Content d\<close>: status 2xx with a JSON body; \<open>d\<close> is what becomes of the message
    content: \<open>NoMatch\<close> when \<^verbatim>\<open>/\{[\s\S]*\}/\<close> does not match it, \<open>ParseThrows\<close> when
    \<^verbatim>\<open>JSON.parse\<close> of the match throws, \<open>Parsed a\<close> when it yields the object \<open>a\<close>.
  A missing content is \<^verbatim>\<open>"{}"\<close> and parses to the object with no fields.
  The fields of the parsed object are taken to have the types the prompt asks for, or to
  be absent.
\<close>

datatype 'a content_decode = NoMatch | ParseThrows | Parsed 'a

datatype 'a oracle_reply =
  FetchThrows string | NotOk nat | ResponseJsonThrows string | Content "'a content_decode"

text \<open>Truthiness of an optional string: \<^verbatim>\<open>undefined\<close> and \<^verbatim>\<open>""\<close> are falsy.\<close>

definition truthy :: "string option \<Rightarrow> bool" where
  "truthy x = (case x of None \<Rightarrow> False | Some s \<Rightarrow> s \<noteq> [])"

text \<open>\<^verbatim>\<open>x || ""\<close> for an optional string.\<close>

definition orEmpty :: "string option \<Rightarrow> string" where
  "orEmpty x = (case x of None \<Rightarrow> [] | Some s \<Rightarrow> s)"

text \<open>\<^verbatim>\<open>x || d\<close> for an optional number: \<^verbatim>\<open>undefined\<close> and \<open>0\<close> are falsy.\<close>

definition orDefault :: "real option \<Rightarrow> real \<Rightarrow> real" where
  "orDefault x d = (case x of None \<Rightarrow> d | Some c \<Rightarrow> if c = 0 then d else c)"

text \<open>The decimal digits of a number in a template string.\<close>

fun natToString :: "nat \<Rightarrow> string" where
  "natToString n =
     (if n < 10 then [''0123456789'' ! n]
      else natToString (n div 10) @ [''0123456789'' ! (n mod 10)])"

declare natToString.simps [simp del]

text \<open>
  \<^verbatim>\<open>b.toString(16).padStart(2, '0')\<close> for a byte, and the tag
  \<^verbatim>\<open>`0x${Array.from(crypto.getRandomValues(new Uint8Array(32))).map(...).join('')}`\<close>;
  \<open>rnd i\<close> is the random byte at index \<open>i\<close>.
\<close>

definition hexChar :: "nat \<Rightarrow> char" where
  "hexChar n = ''0123456789abcdef'' ! (n mod 16)"

definition toString16 :: "8 word \<Rightarrow> string" where
  "toString16 b =
     (if unat b < 16 then [hexChar (unat b)]
      else [hexChar (unat b div 16), hexChar (unat b mod 16)])"

definition padStart :: "nat \<Rightarrow> char \<Rightarrow> string \<Rightarrow> string" where
  "padStart n c s = replicate (n - length s) c @ s"

definition blockchainHashOf :: "(nat \<Rightarrow> 8 word) \<Rightarrow> string" where
  "blockchainHashOf rnd =
     ''0x'' @ concat (map (\<lambda>b. padStart 2 CHR ''0'' (toString16 b)) (map rnd [0..<32]))"

text \<open>
  The result object. \<open>analysisDetails\<close> differs between the analyzers; the field
  \<^verbatim>\<open>method\<close> of every \<open>analysisDetails\<close> is \<open>analysisMethod\<close> here and the field \<^verbatim>\<open>features\<close>
  is \<open>featureRecord\<close>. A field that a path leaves out of the object is \<open>None\<close>.
\<close>

record details_base =
  analysisMethod :: string

record ('f, 'a) hybrid_details = details_base +
  featureRecord :: 'f
  ruleBasedScore :: real
  aiScore :: "real option"
  combinedScore :: "real option"
  aiAnalysis :: "'a option"

record 'd scan_result =
  result :: verdict
  confidence :: real
  threatIndicators :: "string list"
  analysisDetails :: 'd
  blockchainHash :: "string option"
  timestamp :: "string option"

text \<open>
  The lines shared by the URL and the email handler: the oracle's call on the scale of the
  rule score, the weighted combination and the thresholds. Halving a double is exact; the
  literals \<^verbatim>\<open>0.4\<close> and \<^verbatim>\<open>0.6\<close> are the doubles nearest to 4/10 and 6/10; each product and
  each sum is rounded.
\<close>

definition aiScoreOf :: "bool \<Rightarrow> real option \<Rightarrow> real" where
  "aiScoreOf isPhishing conf =
     (if isPhishing then fl64 (50 + orDefault conf 50 / 2)
      else fl64 (50 - orDefault conf 50 / 2))"

definition combinedScoreOf :: "real \<Rightarrow> real \<Rightarrow> real" where
  "combinedScoreOf ruleScore ai =
     fl64 (fl64 (ruleScore * fl64 (4 / 10)) + fl64 (ai * fl64 (6 / 10)))"

definition resultOf :: "real \<Rightarrow> verdict" where
  "resultOf s = (if s \<ge> 50 then Phishing else if s \<ge> 25 then Suspicious else Safe)"

section \<open>The URL analyzer: request handler\<close>

text \<open>
  The object parsed from the oracle's answer; its field \<^verbatim>\<open>confidence\<close> is \<open>aiConfidence\<close>
  here. \<open>isPhishing\<close> is the truthiness of the field, an absent field is \<open>None\<close>.
\<close>

record ai_analysis =
  isPhishing :: bool
  aiConfidence :: "real option"
  reasoning :: "string option"
  additionalThreats :: "string list option"

record url_response = "(UrlFeatures, ai_analysis) hybrid_details scan_result" +
  url :: string

text \<open>What \<open>aiAnalysis\<close> is after the \<^verbatim>\<open>try\<close>/\<^verbatim>\<open>catch\<close> around \<^verbatim>\<open>JSON.parse\<close>.\<close>

definition urlAiAnalysis :: "ai_analysis content_decode \<Rightarrow> ai_analysis" where
  "urlAiAnalysis d =
     (case d of
        NoMatch \<Rightarrow>
          \<lparr> isPhishing = False, aiConfidence = None, reasoning = None,
            additionalThreats = None \<rparr>
      | ParseThrows \<Rightarrow>
          \<lparr> isPhishing = False, aiConfidence = Some 50,
            reasoning = Some ''Unable to parse AI response'', additionalThreats = None \<rparr>
      | Parsed a \<Rightarrow> a)"

text \<open>The branch \<^verbatim>\<open>if (!aiResponse.ok)\<close>: "Fall back to rule-based only".\<close>

definition urlRuleBasedOnly :: "string \<Rightarrow> UrlFeatures \<Rightarrow> ScoreResult \<Rightarrow> url_response" where
  "urlRuleBasedOnly u feats sr =
     \<lparr> result = resultOf (score sr),
       confidence = 100 - \<bar>50 - score sr\<bar>,
       threatIndicators = threats sr,
       analysisDetails =
         \<lparr> analysisMethod = ''rule-based'', featureRecord = feats, ruleBasedScore = score sr,
           aiScore = None, combinedScore = None, aiAnalysis = None \<rparr>,
       blockchainHash = None,
       timestamp = None,
       url = u \<rparr>"

text \<open>The list \<open>allThreats\<close> under the comment "Combine threats".\<close>

definition urlAllThreats :: "string list \<Rightarrow> ai_analysis \<Rightarrow> verdict \<Rightarrow> string list" where
  "urlAllThreats ths a res =
     ths
     @ (case additionalThreats a of None \<Rightarrow> [] | Some ts \<Rightarrow> ts)
     @ (if truthy (reasoning a) \<and> res \<noteq> Safe then [orEmpty (reasoning a)] else [])"

text \<open>The rest of the handler, once \<open>aiAnalysis\<close> is known.\<close>

definition urlHybrid ::
  "(nat \<Rightarrow> 8 word) \<Rightarrow> string \<Rightarrow> string \<Rightarrow> UrlFeatures \<Rightarrow> ScoreResult \<Rightarrow> ai_analysis
     \<Rightarrow> url_response" where
  "urlHybrid rnd now u feats sr a =
     (let ai = aiScoreOf (isPhishing a) (aiConfidence a);
          combined = combinedScoreOf (score sr) ai;
          finalConfidence =
            Math_round (if score sr > 20 \<or> isPhishing a
                        then max combined (orDefault (aiConfidence a) 70)
                        else min (fl64 (100 - combined)) 95);
          res = resultOf combined;
          allThreats = urlAllThreats (threats sr) a res
      in
     \<lparr> result = res,
       confidence =
         (if res = Safe then finalConfidence else fl64 (fl64 (100 - finalConfidence) + 50)),
       threatIndicators = newSet allThreats,
       analysisDetails =
         \<lparr> analysisMethod = ''hybrid-ai'', featureRecord = feats, ruleBasedScore = score sr,
           aiScore = Some (Math_round ai), combinedScore = Some (Math_round combined),
           aiAnalysis = Some a \<rparr>,
       blockchainHash = Some (blockchainHashOf rnd),
       timestamp = Some now,
       url = u \<rparr>)"

text \<open>
  \<^verbatim>\<open>serve\<close> of the URL analyzer. \<open>apiKey\<close> is \<^verbatim>\<open>Deno.env.get("LOVABLE_API_KEY")\<close>; the body
  carries the field \<^verbatim>\<open>url\<close>, \<open>None\<close> when it is absent or not a string. Everything thrown
  inside the \<^verbatim>\<open>try\<close> ends in the \<^verbatim>\<open>catch\<close>, which answers with status 500.
\<close>

definition serve_url ::
  "(string \<Rightarrow> url_parts option) \<Rightarrow> string option \<Rightarrow> (nat \<Rightarrow> 8 word) \<Rightarrow> string
     \<Rightarrow> (string option) http_request \<Rightarrow> ai_analysis oracle_reply \<Rightarrow> url_response response" where
  "serve_url parseURL apiKey rnd now req oracle =
     (if httpMethod req = ''OPTIONS'' then Preflight
      else case jsonBody req of
        JsonThrows msg \<Rightarrow> ErrorResponse 500 msg
      | Body urlField \<Rightarrow>
          if \<not> truthy urlField then ErrorResponse 400 ''URL is required''
          else if \<not> truthy apiKey then ErrorResponse 500 ''LOVABLE_API_KEY is not configured''
          else
            (let u = orEmpty urlField;
                 feats = extractUrlFeatures parseURL u;
                 sr = calculateRiskScore feats
             in case oracle of
                  FetchThrows msg \<Rightarrow> ErrorResponse 500 msg
                | NotOk status \<Rightarrow> Success (urlRuleBasedOnly u feats sr)
                | ResponseJsonThrows msg \<Rightarrow> ErrorResponse 500 msg
                | Content d \<Rightarrow> Success (urlHybrid rnd now u feats sr (urlAiAnalysis d))))"

section \<open>The email analyzer\<close>

record EmailFeatures =
  senderDomain :: string
  senderUser :: string
  isSpoofedDomain :: bool
  hasUrgencyKeywords :: bool
  urgencyCount :: nat
  hasVerificationKeywords :: bool
  hasThreateningLanguage :: bool
  hasSuspiciousLinks :: bool
  linkCount :: nat
  suspiciousLinks :: "string list"
  hasAttachmentMentions :: bool
  hasMoneyRelatedContent :: bool
  hasBrandImpersonation :: bool
  impersonatedBrands :: "string list"
  grammarScore :: real
  sentimentScore :: real

definition emailRuleTable :: "EmailFeatures \<Rightarrow> (bool \<times> real \<times> string) list" where
  "emailRuleTable features =
    [(isSpoofedDomain features, 30,
        ''Spoofed sender domain detected: '' @ senderDomain features),
     (hasBrandImpersonation features, 25,
        ''Brand impersonation attempt: '' @ join '', '' (impersonatedBrands features)),
     (hasUrgencyKeywords features, min 20 (real (urgencyCount features) * 5),
        ''Urgency manipulation detected ('' @ natToString (urgencyCount features)
          @ '' keywords)''),
     (hasVerificationKeywords features, 15, ''Credential harvesting language detected''),
     (hasThreateningLanguage features, 20, ''Threatening/fear-based language detected''),
     (hasSuspiciousLinks features, 20,
        ''Suspicious links found: '' @ natToString (length (suspiciousLinks features))),
     (hasMoneyRelatedContent features
        \<and> (hasUrgencyKeywords features \<or> hasThreateningLanguage features),
        15, ''Financial urgency pressure tactics''),
     (grammarScore features < 60, 10, ''Poor grammar quality (common in phishing)'')]"

definition calculateEmailRiskScore :: "EmailFeatures \<Rightarrow> ScoreResult" where
  "calculateEmailRiskScore features =
     (let st = foldl rule (0, []) (emailRuleTable features)
      in \<lparr> score = min 100 (fst st), threats = snd st \<rparr>)"

text \<open>
  The object parsed from the oracle's answer to an email; its fields \<^verbatim>\<open>isPhishing\<close>,
  \<^verbatim>\<open>confidence\<close> and \<^verbatim>\<open>reasoning\<close> are \<open>emIsPhishing\<close>, \<open>emConfidence\<close> and \<open>emReasoning\<close>
  here. The request body carries the fields \<^verbatim>\<open>sender\<close>, \<^verbatim>\<open>subject\<close> and \<^verbatim>\<open>body\<close>
  (\<open>email_fields\<close>), each \<open>None\<close> when absent.
\<close>

record email_ai_analysis =
  emIsPhishing :: bool
  emConfidence :: "real option"
  emReasoning :: "string option"
  tactics :: "string list option"
  redFlags :: "string list option"

record email_fields =
  senderField :: "string option"
  subjectField :: "string option"
  bodyField :: "string option"

record email_response = "(EmailFeatures, email_ai_analysis) hybrid_details scan_result" +
  sender :: string
  subject :: string

text \<open>
  \<open>aiAnalysis\<close> starts as a neutral default and is replaced only when the response is ok,
  the content matches and \<^verbatim>\<open>JSON.parse\<close> succeeds.
\<close>

definition emailDefaultAnalysis :: email_ai_analysis where
  "emailDefaultAnalysis =
     \<lparr> emIsPhishing = False, emConfidence = Some 50, emReasoning = Some [],
       tactics = Some [], redFlags = Some [] \<rparr>"

definition emailAiAnalysis :: "email_ai_analysis content_decode \<Rightarrow> email_ai_analysis" where
  "emailAiAnalysis d =
     (case d of
        NoMatch \<Rightarrow> emailDefaultAnalysis
      | ParseThrows \<Rightarrow> emailDefaultAnalysis
      | Parsed a \<Rightarrow> a)"

text \<open>The list \<open>allThreats\<close> under the comment "Combine all threats".\<close>

definition emailAllThreats :: "string list \<Rightarrow> email_ai_analysis \<Rightarrow> verdict \<Rightarrow> string list" where
  "emailAllThreats ths a res =
     ths
     @ (case tactics a of None \<Rightarrow> [] | Some ts \<Rightarrow> ts)
     @ (case redFlags a of None \<Rightarrow> [] | Some ts \<Rightarrow> ts)
     @ (if truthy (emReasoning a) \<and> res \<noteq> Safe then [orEmpty (emReasoning a)] else [])"

definition emailHybrid ::
  "(nat \<Rightarrow> 8 word) \<Rightarrow> string \<Rightarrow> string \<Rightarrow> string \<Rightarrow> EmailFeatures \<Rightarrow> ScoreResult
     \<Rightarrow> email_ai_analysis \<Rightarrow> email_response" where
  "emailHybrid rnd now sndr subj feats sr a =
     (let ai = aiScoreOf (emIsPhishing a) (emConfidence a);
          combined = combinedScoreOf (score sr) ai;
          res = resultOf combined;
          conf = Math_round (if res = Safe then fl64 (100 - combined)
                             else min 98 (fl64 (combined + 20)));
          allThreats = emailAllThreats (threats sr) a res
      in
     \<lparr> result = res,
       confidence = conf,
       threatIndicators = slice0 8 (newSet allThreats),
       analysisDetails =
         \<lparr> analysisMethod = ''hybrid-email-ai'', featureRecord = feats, ruleBasedScore = score sr,
           aiScore = Some (Math_round ai), combinedScore = Some (Math_round combined),
           aiAnalysis = Some a \<rparr>,
       blockchainHash = Some (blockchainHashOf rnd),
       timestamp = Some now,
       sender = sndr,
       subject = subj \<rparr>)"

text \<open>
  \<^verbatim>\<open>serve\<close> of the email analyzer. \<^verbatim>\<open>extractEmailFeatures\<close> is a parameter: what follows
  holds for every feature record, hence for the extracted one.
\<close>

definition serve_email ::
  "(string \<Rightarrow> string \<Rightarrow> string \<Rightarrow> EmailFeatures) \<Rightarrow> string option \<Rightarrow> (nat \<Rightarrow> 8 word) \<Rightarrow> string
     \<Rightarrow> email_fields http_request \<Rightarrow> email_ai_analysis oracle_reply
     \<Rightarrow> email_response response" where
  "serve_email extractEmailFeatures apiKey rnd now req oracle =
     (if httpMethod req = ''OPTIONS'' then Preflight
      else case jsonBody req of
        JsonThrows msg \<Rightarrow> ErrorResponse 500 msg
      | Body flds \<Rightarrow>
          if \<not> truthy (senderField flds) \<or> \<not> truthy (subjectField flds)
             \<or> \<not> truthy (bodyField flds)
          then ErrorResponse 400 ''Sender, subject, and body are required''
          else if \<not> truthy apiKey then ErrorResponse 500 ''LOVABLE_API_KEY is not configured''
          else
            (let sndr = orEmpty (senderField flds);
                 subj = orEmpty (subjectField flds);
                 feats = extractEmailFeatures sndr subj (orEmpty (bodyField flds));
                 sr = calculateEmailRiskScore feats
             in case oracle of
                  FetchThrows msg \<Rightarrow> ErrorResponse 500 msg
                | NotOk status \<Rightarrow>
                    Success (emailHybrid rnd now sndr subj feats sr emailDefaultAnalysis)
                | ResponseJsonThrows msg \<Rightarrow> ErrorResponse 500 msg
                | Content d \<Rightarrow>
                    Success (emailHybrid rnd now sndr subj feats sr (emailAiAnalysis d))))"

section \<open>The heuristic logo analyzer\<close>

definition SAFE_DOMAINS :: "string list" where
  "SAFE_DOMAINS = [''netflix.com'', ''amazon.com'', ''paypal.com'']"

definition PHISH_KEYWORDS :: "string list" where
  "PHISH_KEYWORDS = [''phish'', ''fake'', ''scam'', ''suspicious'']"

definition domainFromUrl :: "(string \<Rightarrow> url_parts option) \<Rightarrow> string \<Rightarrow> string" where
  "domainFromUrl parseURL u =
     (case parseURL u of None \<Rightarrow> [] | Some parsed \<Rightarrow> toLowerCase (hostname parsed))"

definition hasSafeDomain :: "(string \<Rightarrow> url_parts option) \<Rightarrow> string \<Rightarrow> bool" where
  "hasSafeDomain parseURL u =
     (let host = domainFromUrl parseURL u
      in list_ex (\<lambda>d. host = d \<or> endsWith host (''.'' @ d)) SAFE_DOMAINS)"

record logo_input =
  imageUrl :: "string option"
  base64Image :: "string option"

record logo_heuristic =
  verdict :: verdict
  probability :: real
  issues :: "string list"
  brand :: "string option"

text \<open>
  The first half of \<^verbatim>\<open>calcLogoHeuristic\<close>: the three additive blocks (\<open>logoRuleTable\<close>), the
  condition of the "brand mismatch shortcut" (\<open>paypalMismatch\<close>), and the local variables
  \<open>(score, issues)\<close> when the comment "Produce verdict" is reached (\<open>logoScore\<close>).
\<close>

definition logoRuleTable :: "logo_input \<Rightarrow> (bool \<times> real \<times> string) list" where
  "logoRuleTable input =
     (let img = orEmpty (imageUrl input);
          hasUrl = truthy (imageUrl input);
          isLocal = (truthy (base64Image input) \<or> (hasUrl \<and> \<not> startsWith img ''http''));
          u = toLowerCase img
      in [(hasUrl \<and> list_ex (\<lambda>kw. includesStr u kw) PHISH_KEYWORDS, 50,
             ''URL contains phishing keywords''),
          (isLocal, 30, ''Local/base64 image (source cannot be verified)''),
          (hasUrl \<and> (includesStr u ''blur'' \<or> length img < 50), 20,
             ''Low-signal / potentially blurred image reference'')])"

definition paypalMismatch :: "(string \<Rightarrow> url_parts option) \<Rightarrow> logo_input \<Rightarrow> bool" where
  "paypalMismatch parseURL input =
     (let img = orEmpty (imageUrl input);
          hasUrl = truthy (imageUrl input);
          u = toLowerCase img;
          looksLikePaypal = includesStr u ''paypal'';
          hostedOnPaypal =
            (if hasUrl
             then includesStr (domainFromUrl parseURL img) ''paypal''
                  \<or> includesStr img ''paypal.com''
             else False)
      in looksLikePaypal \<and> hasUrl \<and> \<not> hostedOnPaypal)"

definition logoScore :: "(string \<Rightarrow> url_parts option) \<Rightarrow> logo_input \<Rightarrow> real \<times> string list" where
  "logoScore parseURL input =
     (let st = foldl rule (0, []) (logoRuleTable input)
      in if paypalMismatch parseURL input
         then (max (fst st) 92, snd st @ [''PayPal brand on non-official source''])
         else st)"

definition calcLogoHeuristic :: "(string \<Rightarrow> url_parts option) \<Rightarrow> logo_input \<Rightarrow> logo_heuristic" where
  "calcLogoHeuristic parseURL input =
     (let img = orEmpty (imageUrl input);
          hasUrl = truthy (imageUrl input);
          u = toLowerCase img;
          looksLikePaypal = includesStr u ''paypal'';
          st = logoScore parseURL input
      in if hasUrl \<and> hasSafeDomain parseURL img \<and> fst st = 0
         then \<lparr> verdict = Safe, probability = 8, issues = snd st,
                brand = (if includesStr u ''netflix'' then Some ''netflix''
                         else if includesStr u ''amazon'' then Some ''amazon''
                         else if includesStr u ''paypal'' then Some ''paypal'' else None) \<rparr>
         else if fst st = 0
         then \<lparr> verdict = Unknown, probability = 45,
                issues = [''Unknown logo / insufficient signals''], brand = None \<rparr>
         else
           (let prob = min 95 (fst st)
            in \<lparr> verdict = (if prob > 30 then Phishing else Unknown), probability = prob,
                 issues = snd st,
                 brand = (if looksLikePaypal then Some ''paypal''
                          else if includesStr u ''netflix'' then Some ''netflix''
                          else if includesStr u ''amazon'' then Some ''amazon'' else None) \<rparr>))"

text \<open>
  The \<open>analysisDetails\<close> of the logo result; its other fields repeat \<open>detectedBrand\<close>,
  \<open>confidence\<close> and the issues.
\<close>

record logo_details = details_base +
  suspicions :: "string list"
  isAuthentic :: bool
  aiReasoning :: string

record logo_response = "logo_details scan_result" +
  imageUrlEcho :: string
  detectedBrand :: "string option"

definition serve_logo ::
  "(string \<Rightarrow> url_parts option) \<Rightarrow> (nat \<Rightarrow> 8 word) \<Rightarrow> string
     \<Rightarrow> logo_input http_request \<Rightarrow> logo_response response" where
  "serve_logo parseURL rnd now req =
     (if httpMethod req = ''OPTIONS'' then Preflight
      else case jsonBody req of
        JsonThrows msg \<Rightarrow> ErrorResponse 500 msg
      | Body input \<Rightarrow>
          if \<not> truthy (imageUrl input) \<and> \<not> truthy (base64Image input)
          then ErrorResponse 400 ''Image URL or base64 image is required''
          else
            (let heuristic = calcLogoHeuristic parseURL input;
                 allIssues = issues heuristic
             in Success
                  \<lparr> result = verdict heuristic,
                    confidence = probability heuristic,
                    threatIndicators = newSet allIssues,
                    analysisDetails =
                      \<lparr> analysisMethod = ''heuristic-logo-v2'', suspicions = allIssues,
                        isAuthentic = (verdict heuristic = Safe),
                        aiReasoning =
                          (if verdict heuristic = Unknown
                           then ''Unknown logo / insufficient signals''
                           else if verdict heuristic = Safe
                           then ''Known safe domain and no phishing indicators''
                           else ''Heuristic indicators suggest a phishing/counterfeit logo'') \<rparr>,
                    blockchainHash = Some (blockchainHashOf rnd),
                    timestamp = Some now,
                    imageUrlEcho = (if truthy (imageUrl input) then orEmpty (imageUrl input)
                                    else ''base64-image''),
                    detectedBrand = brand heuristic \<rparr>))"

section \<open>Notions used to state the properties\<close>

text \<open>The JSON result of a response with status 200, if it is one.\<close>

definition payload :: "'r response \<Rightarrow> 'r option" where
  "payload resp = (case resp of Success r \<Rightarrow> Some r | _ \<Rightarrow> None)"

text \<open>A POST request whose body decodes to \<open>b\<close>.\<close>

definition postJson :: "'b \<Rightarrow> 'b http_request" where
  "postJson b = \<lparr> httpMethod = ''POST'', jsonBody = Body b \<rparr>"

text \<open>
  Order of first occurrence: \<open>firstIndex xs x\<close> is the position at which \<open>x\<close> first occurs
  in \<open>xs\<close>. A list \<open>out\<close> keeps the first occurrences of \<open>xs\<close> when it holds the same
  strings as \<open>xs\<close>, each once, ordered by their first occurrence in \<open>xs\<close>.
\<close>

definition firstIndex :: "'a list \<Rightarrow> 'a \<Rightarrow> nat" where
  "firstIndex xs x = length (takeWhile (\<lambda>y. y \<noteq> x) xs)"

definition keepsFirstOccurrences :: "'a list \<Rightarrow> 'a list \<Rightarrow> bool" where
  "keepsFirstOccurrences xs out =
     (set out = set xs \<and> sorted_wrt (\<lambda>x y. firstIndex xs x < firstIndex xs y) out)"

text \<open>
  An example URL of \<open>20 + n\<close> characters: \<^verbatim>\<open>https://example.com/\<close> followed by \<open>n\<close>
  letters \<^verbatim>\<open>a\<close>.
\<close>

definition longUrl :: "nat \<Rightarrow> string" where
  "longUrl n = ''https://example.com/'' @ replicate n (CHR ''a'')"

text \<open>
  The WHATWG parser on the URLs of the examples below (it fails on every other string the
  examples give it); every general theorem is stated for an arbitrary parser.
\<close>

definition exampleParser :: "string \<Rightarrow> url_parts option" where
  "exampleParser s =
     (if s = ''https://example.com''
      then Some \<lparr> protocol = ''https:'', hostname = ''example.com'', pathname = ''/'',
                  search = [], port = [] \<rparr>
      else if s = ''https://www.amazon.com''
      then Some \<lparr> protocol = ''https:'', hostname = ''www.amazon.com'', pathname = ''/'',
                  search = [], port = [] \<rparr>
      else if s = ''https://www.amazon.com/gp/help''
      then Some \<lparr> protocol = ''https:'', hostname = ''www.amazon.com'',
                  pathname = ''/gp/help'', search = [], port = [] \<rparr>
      else if s = ''https://example.xyz''
      then Some \<lparr> protocol = ''https:'', hostname = ''example.xyz'', pathname = ''/'',
                  search = [], port = [] \<rparr>
      else if s = ''https://paypal.evil.io''
      then Some \<lparr> protocol = ''https:'', hostname = ''paypal.evil.io'', pathname = ''/'',
                  search = [], port = [] \<rparr>
      else if s = ''https://www.netflix.com/assets/brand/netflix-logo-official.png''
      then Some \<lparr> protocol = ''https:'', hostname = ''www.netflix.com'',
                  pathname = ''/assets/brand/netflix-logo-official.png'',
                  search = [], port = [] \<rparr>
      else if s = ''https://evil.example/paypal-logo.png''
      then Some \<lparr> protocol = ''https:'', hostname = ''evil.example'',
                  pathname = ''/paypal-logo.png'', search = [], port = [] \<rparr>
      else if s = ''https://cdn.example.org/assets/images/brand/company-logo.png''
      then Some \<lparr> protocol = ''https:'', hostname = ''cdn.example.org'',
                  pathname = ''/assets/images/brand/company-logo.png'',
                  search = [], port = [] \<rparr>
      else if s = longUrl 84 \<or> s = longUrl 88
      then Some \<lparr> protocol = ''https:'', hostname = ''example.com'',
                  pathname = drop 19 s, search = [], port = [] \<rparr>
      else None)"

text \<open>
  The official PayPal domains of the two brand tables of the repository (\<^verbatim>\<open>officialDomains\<close>
  of the vision logo analyzer, \<^verbatim>\<open>legitimateDomains\<close> of the email analyzer).
\<close>

definition paypalOfficialDomains :: "string list" where
  "paypalOfficialDomains = [''paypal.com'', ''paypalobjects.com'', ''paypal.co.uk'']"

text \<open>
  The feature record of the email from \<^verbatim>\<open>alice@example.com\<close> with subject \<^verbatim>\<open>Hello\<close> and body
  \<^verbatim>\<open>Dear customer,  HELLO from us\<close>: only the grammar rule fires (rule score 10).
\<close>

definition exampleEmailFeatures :: EmailFeatures where
  "exampleEmailFeatures =
     \<lparr> senderDomain = ''example.com'', senderUser = ''alice'', isSpoofedDomain = False,
       hasUrgencyKeywords = False, urgencyCount = 0, hasVerificationKeywords = False,
       hasThreateningLanguage = False, hasSuspiciousLinks = False, linkCount = 0,
       suspiciousLinks = [], hasAttachmentMentions = False, hasMoneyRelatedContent = False,
       hasBrandImpersonation = False, impersonatedBrands = [], grammarScore = 55,
       sentimentScore = 50 \<rparr>"

section \<open>Auxiliary facts\<close>

subsection \<open>Rounding to doubles\<close>

text \<open>
  Within a binade \<open>fl64\<close> rounds the significand to 53 bits; it is monotone on the
  non-negative reals and leaves every number with at most 53 significant bits unchanged,
  in particular the integers and the quarters that occur as rule scores.
\<close>

lemma roundTiesToEven_cases:
  "roundTiesToEven y = \<lfloor>y\<rfloor> \<or> roundTiesToEven y = \<lfloor>y\<rfloor> + 1"
  by (simp add: roundTiesToEven_def Let_def)

lemma roundTiesToEven_of_int: "roundTiesToEven (of_int n) = n"
  by (simp add: roundTiesToEven_def Let_def)

lemma roundTiesToEven_mono:
  assumes "y \<le> z"
  shows "roundTiesToEven y \<le> roundTiesToEven z"
proof (cases "\<lfloor>y\<rfloor> = \<lfloor>z\<rfloor>")
  case True
  have "y - of_int \<lfloor>y\<rfloor> \<le> z - of_int \<lfloor>z\<rfloor>" using assms True by simp
  then show ?thesis
    using True by (auto simp: roundTiesToEven_def Let_def)
next
  case False
  with assms have "\<lfloor>y\<rfloor> < \<lfloor>z\<rfloor>" using floor_mono [of y z] by linarith
  then have "\<lfloor>y\<rfloor> + 1 \<le> \<lfloor>z\<rfloor>" by simp
  moreover have "roundTiesToEven y \<le> \<lfloor>y\<rfloor> + 1"
    using roundTiesToEven_cases [of y] by linarith
  moreover have "\<lfloor>z\<rfloor> \<le> roundTiesToEven z"
    using roundTiesToEven_cases [of z] by linarith
  ultimately show ?thesis by linarith
qed

lemma ulp64_pos: "0 < ulp64 x"
  by (simp add: ulp64_def)

lemma ulp64_binade:
  assumes "0 < x" "2 powr of_int e \<le> x" "x < 2 powr of_int (e + 1)"
  shows "ulp64 x = 2 powr of_int (e - 52)"
proof -
  have "\<lfloor>log 2 x\<rfloor> = e"
    using assms by (subst floor_log_eq_powr_iff) simp_all
  then show ?thesis using assms(1) by (simp add: ulp64_def)
qed

lemma fl64_binade:
  assumes "0 < x" "2 powr of_int e \<le> x" "x < 2 powr of_int (e + 1)"
  shows "fl64 x = of_int (roundTiesToEven (x / 2 powr of_int (e - 52))) * 2 powr of_int (e - 52)"
  using assms by (simp add: fl64_def ulp64_binade [OF assms])

lemma binade_exists:
  fixes x :: real
  assumes "0 < x"
  obtains e :: int where "2 powr of_int e \<le> x" "x < 2 powr of_int (e + 1)"
proof -
  have "2 powr of_int \<lfloor>log 2 x\<rfloor> \<le> x \<and> x < 2 powr of_int (\<lfloor>log 2 x\<rfloor> + 1)"
    using floor_log_eq_powr_iff [of x 2 "\<lfloor>log 2 x\<rfloor>"] assms by simp
  then show ?thesis using that by blast
qed

lemma fl64_zero: "fl64 0 = 0"
  by (simp add: fl64_def)

lemma fl64_nonneg:
  assumes "0 \<le> x"
  shows "0 \<le> fl64 x"
proof -
  from assms have "0 \<le> x / ulp64 x" using ulp64_pos [of x] by simp
  then have "roundTiesToEven 0 \<le> roundTiesToEven (x / ulp64 x)"
    by (rule roundTiesToEven_mono)
  then have "0 \<le> roundTiesToEven (x / ulp64 x)"
    using roundTiesToEven_of_int [of 0] by simp
  then show ?thesis using ulp64_pos [of x] by (simp add: fl64_def)
qed

lemma two_powr_nat: "(2::real) powr of_int (int n) = of_int (2 ^ n)"
  by (simp add: powr_realpow)

lemma ulp_scaled:
  "(2::real) powr of_int e = 2 ^ 52 * 2 powr of_int (e - 52)"
  "(2::real) powr of_int (e + 1) = 2 ^ 53 * 2 powr of_int (e - 52)"
proof -
  have "real_of_int e = 52 + of_int (e - 52)" by simp
  then have "(2::real) powr of_int e = 2 powr (52 + of_int (e - 52))" by (rule arg_cong)
  also have "\<dots> = 2 powr 52 * 2 powr of_int (e - 52)" by (rule powr_add)
  finally show "(2::real) powr of_int e = 2 ^ 52 * 2 powr of_int (e - 52)" by simp
  have "real_of_int (e + 1) = 53 + of_int (e - 52)" by simp
  then have "(2::real) powr of_int (e + 1) = 2 powr (53 + of_int (e - 52))" by (rule arg_cong)
  also have "\<dots> = 2 powr 53 * 2 powr of_int (e - 52)" by (rule powr_add)
  finally show "(2::real) powr of_int (e + 1) = 2 ^ 53 * 2 powr of_int (e - 52)" by simp
qed

lemma fl64_bounds_in_binade:
  assumes "0 < x" "2 powr of_int e \<le> x" "x < 2 powr of_int (e + 1)"
  shows "2 powr of_int e \<le> fl64 x" "fl64 x \<le> 2 powr of_int (e + 1)"
proof -
  define u :: real where "u = 2 powr of_int (e - 52)"
  have u: "0 < u" by (simp add: u_def)
  have lo: "(2::real) powr of_int e = of_int (2 ^ 52) * u"
    using ulp_scaled(1) [of e] by (simp add: u_def)
  have hi: "(2::real) powr of_int (e + 1) = of_int (2 ^ 53) * u"
    using ulp_scaled(2) [of e] by (simp add: u_def)
  have f: "fl64 x = of_int (roundTiesToEven (x / u)) * u"
    unfolding u_def by (rule fl64_binade [OF assms])
  have "of_int (2 ^ 52) * u \<le> x" using assms(2) unfolding lo .
  then have "of_int (2 ^ 52) \<le> x / u" using u by (simp only: pos_le_divide_eq)
  then have "roundTiesToEven (of_int (2 ^ 52)) \<le> roundTiesToEven (x / u)"
    by (rule roundTiesToEven_mono)
  then have "(2 ^ 52 :: int) \<le> roundTiesToEven (x / u)"
    unfolding roundTiesToEven_of_int .
  then have "of_int (2 ^ 52) \<le> (of_int (roundTiesToEven (x / u)) :: real)"
    by (rule of_int_le_iff [THEN iffD2])
  then have "of_int (2 ^ 52) * u \<le> of_int (roundTiesToEven (x / u)) * u"
    using u by (simp only: mult_le_cancel_right_pos)
  then show "2 powr of_int e \<le> fl64 x"
    unfolding lo f .
  have "x \<le> of_int (2 ^ 53) * u" using assms(3) unfolding hi by simp
  then have "x / u \<le> of_int (2 ^ 53)" using u by (simp only: pos_divide_le_eq)
  then have "roundTiesToEven (x / u) \<le> roundTiesToEven (of_int (2 ^ 53))"
    by (rule roundTiesToEven_mono)
  then have "roundTiesToEven (x / u) \<le> (2 ^ 53 :: int)"
    unfolding roundTiesToEven_of_int .
  then have "(of_int (roundTiesToEven (x / u)) :: real) \<le> of_int (2 ^ 53)"
    by (rule of_int_le_iff [THEN iffD2])
  then have "of_int (roundTiesToEven (x / u)) * u \<le> of_int (2 ^ 53) * u"
    using u by (simp only: mult_le_cancel_right_pos)
  then show "fl64 x \<le> 2 powr of_int (e + 1)"
    unfolding hi f .
qed

lemma fl64_mono:
  assumes "0 \<le> x" "x \<le> y"
  shows "fl64 x \<le> fl64 y"
proof (cases "x = 0")
  case True
  then show ?thesis using assms fl64_nonneg [of y] by (simp add: fl64_zero)
next
  case False
  then have px: "0 < x" and py: "0 < y" using assms by simp_all
  obtain e where e: "2 powr of_int e \<le> x" "x < 2 powr of_int (e + 1)"
    using binade_exists [OF px] by blast
  obtain d where d: "2 powr of_int d \<le> y" "y < 2 powr of_int (d + 1)"
    using binade_exists [OF py] by blast
  have "(2::real) powr of_int e < 2 powr of_int (d + 1)"
    using e(1) assms(2) d(2) by linarith
  then have "real_of_int e < real_of_int (d + 1)" by (simp only: powr_less_cancel_iff) 
  then have ed: "e \<le> d" by linarith
  show ?thesis
  proof (cases "e = d")
    case True
    define u :: real where "u = 2 powr of_int (e - 52)"
    have u: "0 < u" by (simp add: u_def)
    have "x / u \<le> y / u" using assms(2) u by (simp add: divide_right_mono)
    then have "roundTiesToEven (x / u) \<le> roundTiesToEven (y / u)"
      by (rule roundTiesToEven_mono)
    then have "(of_int (roundTiesToEven (x / u)) :: real) \<le> of_int (roundTiesToEven (y / u))"
      by (rule of_int_le_iff [THEN iffD2])
    then have "of_int (roundTiesToEven (x / u)) * u \<le> of_int (roundTiesToEven (y / u)) * u"
      using u by (simp only: mult_le_cancel_right_pos)
    moreover have "fl64 x = of_int (roundTiesToEven (x / u)) * u"
      unfolding u_def by (rule fl64_binade [OF px e])
    moreover have "fl64 y = of_int (roundTiesToEven (y / u)) * u"
      unfolding u_def True by (rule fl64_binade [OF py d])
    ultimately show ?thesis by simp
  next
    case False
    with ed have "e + 1 \<le> d" by simp
    then have "real_of_int (e + 1) \<le> real_of_int d" by (rule of_int_le_iff [THEN iffD2])
    then have "(2::real) powr of_int (e + 1) \<le> 2 powr of_int d"
      by (simp only: powr_le_cancel_iff) 
    with fl64_bounds_in_binade(2) [OF px e] fl64_bounds_in_binade(1) [OF py d]
    show ?thesis by linarith
  qed
qed

lemma fl64_dyadic:
  assumes "0 < n" "n < 2 ^ 53"
  shows "fl64 (of_int n * 2 powr of_int j) = of_int n * 2 powr of_int j"
proof -
  define x :: real where "x = of_int n * 2 powr of_int j"
  have px: "0 < x" using assms(1) by (simp add: x_def)
  obtain e where e: "2 powr of_int e \<le> x" "x < 2 powr of_int (e + 1)"
    using binade_exists [OF px] by blast
  have "real_of_int n < of_int (2 ^ 53)" using assms(2) by (rule of_int_less_iff [THEN iffD2])
  moreover have "0 < (2::real) powr of_int j" by simp
  ultimately have "x < of_int (2 ^ 53) * 2 powr of_int j"
    unfolding x_def by (rule mult_strict_right_mono)
  also have "\<dots> = 2 powr 53 * 2 powr of_int j" by simp
  also have "\<dots> = 2 powr (53 + of_int j)" by (rule powr_add [symmetric])
  finally have "(2::real) powr of_int e < 2 powr (53 + of_int j)" using e(1) by linarith
  then have "real_of_int e < 53 + of_int j" by (simp only: powr_less_cancel_iff)
  then have "0 \<le> 52 - e + j" by linarith
  then obtain k :: nat where k: "int k = 52 - e + j"
    using nonneg_int_cases [of "52 - e + j"] by metis
  define u :: real where "u = 2 powr of_int (e - 52)"
  have u: "0 < u" by (simp add: u_def)
  have "real_of_int j = of_int (int k) + of_int (e - 52)" unfolding k by simp
  then have "(2::real) powr of_int j = 2 powr (of_int (int k) + of_int (e - 52))"
    by (rule arg_cong)
  also have "\<dots> = 2 powr of_int (int k) * u" unfolding u_def by (rule powr_add)
  also have "(2::real) powr of_int (int k) = 2 ^ k" by (simp add: powr_realpow)
  finally have j: "(2::real) powr of_int j = 2 ^ k * u" .
  have xq: "x = of_int (n * 2 ^ k) * u" unfolding x_def j by simp
  then have "x / u = of_int (n * 2 ^ k)" using u by simp
  moreover have "fl64 x = of_int (roundTiesToEven (x / u)) * u"
    unfolding u_def by (rule fl64_binade [OF px e])
  ultimately have "fl64 x = of_int (n * 2 ^ k) * u"
    by (simp only: roundTiesToEven_of_int)
  then have "fl64 x = x" using xq by simp
  then show ?thesis unfolding x_def .
qed

lemma fl64_int: "0 < n \<Longrightarrow> n < 2 ^ 53 \<Longrightarrow> fl64 (of_int n) = of_int n"
  using fl64_dyadic [of n 0] by simp

lemma fl64_numeral [simp]: "numeral w < (2 ^ 53 :: int) \<Longrightarrow> fl64 (numeral w) = numeral w"
  using fl64_int [of "numeral w"] by simp

lemma fl64_frac:
  "0 < n \<Longrightarrow> n < 2 ^ 53 \<Longrightarrow> fl64 (of_int n / 2 ^ k) = of_int n / 2 ^ k"
  using fl64_dyadic [of n "- int k"] by (simp add: powr_minus_divide powr_realpow)

text \<open>
  The doubles of the weights \<^verbatim>\<open>0.4\<close> and \<^verbatim>\<open>0.6\<close>: the first lies above 2/5, the second
  below 3/5.
\<close>

lemma c04_val: "fl64 (4 / 10) = 3602879701896397 / 2 ^ 53"
proof -
  have "fl64 (4 / 10) = of_int (roundTiesToEven ((4 / 10) / 2 powr of_int (- 2 - 52)))
      * 2 powr of_int (- 2 - 52)"
    by (rule fl64_binade) (simp_all add: powr_minus_divide)
  also have "\<dots> = 3602879701896397 / 2 ^ 53"
    by (simp add: powr_minus_divide roundTiesToEven_def Let_def)
  finally show ?thesis .
qed

lemma c06_val: "fl64 (6 / 10) = 5404319552844595 / 2 ^ 53"
proof -
  have "fl64 (6 / 10) = of_int (roundTiesToEven ((6 / 10) / 2 powr of_int (- 1 - 52)))
      * 2 powr of_int (- 1 - 52)"
    by (rule fl64_binade) (simp_all add: powr_minus_divide)
  also have "\<dots> = 5404319552844595 / 2 ^ 53"
    by (simp add: powr_minus_divide roundTiesToEven_def Let_def)
  finally show ?thesis .
qed

lemma fl64_eval:
  assumes "0 < x" "2 powr of_int e \<le> x" "x < 2 powr of_int (e + 1)"
    and "roundTiesToEven (x / 2 powr of_int (e - 52)) = m"
  shows "fl64 x = of_int m * 2 powr of_int (e - 52)"
  using fl64_binade [OF assms(1-3)] assms(4) by simp

lemma c04: "fl64 (2 / 5) = 3602879701896397 / 9007199254740992"
  using c04_val by simp

lemma c06: "fl64 (3 / 5) = 5404319552844595 / 9007199254740992"
  using c06_val by simp

lemma c04_bounds: "2 / 5 \<le> fl64 (2 / 5)" "fl64 (2 / 5) \<le> 1 / 2"
  by (simp_all add: c04)

lemma c06_bounds: "1 / 2 \<le> fl64 (3 / 5)" "fl64 (3 / 5) \<le> 3 / 5"
  by (simp_all add: c06)

lemma combinedScoreOf_simp:
  "combinedScoreOf r a = fl64 (fl64 (r * fl64 (2 / 5)) + fl64 (a * fl64 (3 / 5)))"
  by (simp add: combinedScoreOf_def)



lemma prod_10_c04: "fl64 (10 * fl64 (2 / 5)) = 4"
  unfolding c04
  by (subst fl64_eval [where e = 2 and m = 4503599627370496])
    (simp_all add: powr_minus_divide roundTiesToEven_def Let_def)


lemma prod_8_c04: "fl64 (8 * fl64 (2 / 5)) = 3602879701896397 / 1125899906842624"
  unfolding c04
  by (subst fl64_eval [where e = 1 and m = 7205759403792794])
    (simp_all add: powr_minus_divide roundTiesToEven_def Let_def)

lemma prod_100_c04: "fl64 (100 * fl64 (2 / 5)) = 40"
  unfolding c04
  by (subst fl64_eval [where e = 5 and m = 5629499534213120])
    (simp_all add: powr_minus_divide roundTiesToEven_def Let_def)

lemma prod_25_c06: "fl64 (25 * fl64 (3 / 5)) = 15"
  unfolding c06
  by (subst fl64_eval [where e = 3 and m = 8444249301319680])
    (simp_all add: powr_minus_divide roundTiesToEven_def Let_def)



lemma prod_60_c06: "fl64 (60 * fl64 (3 / 5)) = 36"
  unfolding c06
  by (subst fl64_eval [where e = 5 and m = 5066549580791808])
    (simp_all add: powr_minus_divide roundTiesToEven_def Let_def)



lemma prod_75_c06: "fl64 (75 * fl64 (3 / 5)) = 45"
  unfolding c06
  by (subst fl64_eval [where e = 5 and m = 6333186975989760])
    (simp_all add: powr_minus_divide roundTiesToEven_def Let_def)

lemma prod_5_c06: "fl64 (5 * fl64 (3 / 5)) = 3"
  unfolding c06
  by (subst fl64_eval [where e = 1 and m = 6755399441055744])
    (simp_all add: powr_minus_divide roundTiesToEven_def Let_def)

lemma prod_95_c06: "fl64 (95 * fl64 (3 / 5)) = 57"
  unfolding c06
  by (subst fl64_eval [where e = 5 and m = 8022036836253696])
    (simp_all add: powr_minus_divide roundTiesToEven_def Let_def)

lemma prod_100_c06: "fl64 (100 * fl64 (3 / 5)) = 60"
  unfolding c06
  by (subst fl64_eval [where e = 5 and m = 8444249301319680])
    (simp_all add: powr_minus_divide roundTiesToEven_def Let_def)



lemma combined_0_60: "combinedScoreOf 0 60 = 36"
  by (simp add: combinedScoreOf_simp  prod_60_c06 fl64_zero)



lemma combined_8_5: "combinedScoreOf 8 5 = 6980579422424269 / 1125899906842624"
proof -
  have "fl64 (3602879701896397 / 1125899906842624 + 3) = 6980579422424269 / 1125899906842624"
    by (subst fl64_eval [where e = 2 and m = 6980579422424269])
      (simp_all add: powr_minus_divide roundTiesToEven_def Let_def)
  then show ?thesis
    by (simp add: combinedScoreOf_simp prod_8_c04 prod_5_c06 fl64_zero)
qed

lemma combined_0_5: "combinedScoreOf 0 5 = 3"
  by (simp add: combinedScoreOf_simp  prod_5_c06 fl64_zero)

lemma combined_10_95: "combinedScoreOf 10 95 = 61"
  by (simp add: combinedScoreOf_simp prod_10_c04 prod_95_c06 fl64_zero)


text \<open>The scaled call and the combined score stay between 0 and 100.\<close>

lemma aiScoreOf_range:
  assumes "0 < orDefault c 50 \<and> orDefault c 50 \<le> 100"
  shows "0 \<le> aiScoreOf b c" "aiScoreOf b c \<le> 100"
proof -
  have "fl64 (50 + orDefault c 50 / 2) \<le> fl64 100" "fl64 (50 - orDefault c 50 / 2) \<le> fl64 100"
    using assms by (intro fl64_mono; simp)+
  then show "aiScoreOf b c \<le> 100" by (simp add: aiScoreOf_def)
  show "0 \<le> aiScoreOf b c"
    using assms by (simp add: aiScoreOf_def fl64_nonneg)
qed

lemma combinedScoreOf_range:
  assumes "0 \<le> s" "s \<le> 100" "0 \<le> a" "a \<le> 100"
  shows "0 \<le> combinedScoreOf s a" "combinedScoreOf s a \<le> 100"
proof -
  have c: "0 \<le> fl64 (2 / 5)" "0 \<le> fl64 (3 / 5)"
    using c04_bounds(1) c06_bounds(1) by simp_all
  have p: "0 \<le> s * fl64 (2 / 5)" "0 \<le> a * fl64 (3 / 5)"
    using assms(1,3) c by simp_all
  then have q: "0 \<le> fl64 (s * fl64 (2 / 5))" "0 \<le> fl64 (a * fl64 (3 / 5))"
    by (simp_all add: fl64_nonneg)
  then show "0 \<le> combinedScoreOf s a"
    by (simp add: combinedScoreOf_simp fl64_nonneg)
  have "s * fl64 (2 / 5) \<le> 100 * fl64 (2 / 5)" "a * fl64 (3 / 5) \<le> 100 * fl64 (3 / 5)"
    using assms(2,4) c by (simp_all add: mult_right_mono)
  then have "fl64 (s * fl64 (2 / 5)) \<le> fl64 (100 * fl64 (2 / 5))"
    "fl64 (a * fl64 (3 / 5)) \<le> fl64 (100 * fl64 (3 / 5))"
    using p by (simp_all add: fl64_mono)
  then have "fl64 (s * fl64 (2 / 5)) + fl64 (a * fl64 (3 / 5)) \<le> 100"
    unfolding prod_100_c04 prod_100_c06 by simp
  then have "fl64 (fl64 (s * fl64 (2 / 5)) + fl64 (a * fl64 (3 / 5))) \<le> fl64 100"
    using q by (intro fl64_mono) simp_all
  then show "combinedScoreOf s a \<le> 100"
    by (simp add: combinedScoreOf_simp)
qed

text \<open>
  With the neutral call, scaled to 25, the doubles and exact arithmetic give the same
  verdict for every rule score that is a multiple of 1/4.
\<close>

lemma quarter_simps:
  "(0::real) \<in> range (\<lambda>k::int. of_int k / 4)"
  "numeral w \<in> range (\<lambda>k::int. real_of_int k / 4)"
  "real n \<in> range (\<lambda>k::int. real_of_int k / 4)"
  "real_of_int i \<in> range (\<lambda>k::int. real_of_int k / 4)"
proof -
  have i: "real_of_int j \<in> range (\<lambda>k::int. real_of_int k / 4)" for j
    by (rule range_eqI [of _ _ "4 * j"]) simp
  show "(0::real) \<in> range (\<lambda>k::int. of_int k / 4)"
    using i [of 0] by simp
  show "numeral w \<in> range (\<lambda>k::int. real_of_int k / 4)"
    using i [of "numeral w"] by simp
  show "real n \<in> range (\<lambda>k::int. real_of_int k / 4)"
    using i [of "int n"] by simp
  show "real_of_int i \<in> range (\<lambda>k::int. real_of_int k / 4)"
    by (rule i)
qed

lemma quarter_add:
  assumes "x \<in> range (\<lambda>k::int. real_of_int k / 4)" "y \<in> range (\<lambda>k::int. real_of_int k / 4)"
  shows "x + y \<in> range (\<lambda>k::int. real_of_int k / 4)"
proof -
  from assms obtain a b :: int where "x = of_int a / 4" "y = of_int b / 4" by auto
  then have "x + y = of_int (a + b) / 4" by simp
  then show ?thesis by (rule range_eqI)
qed

lemma quarter_diff:
  assumes "x \<in> range (\<lambda>k::int. real_of_int k / 4)" "y \<in> range (\<lambda>k::int. real_of_int k / 4)"
  shows "x - y \<in> range (\<lambda>k::int. real_of_int k / 4)"
proof -
  from assms obtain a b :: int where "x = of_int a / 4" "y = of_int b / 4" by auto
  then have "x - y = of_int (a - b) / 4" by simp
  then show ?thesis by (rule range_eqI)
qed

lemma quarter_mult:
  assumes "x \<in> range (\<lambda>k::int. real_of_int k / 4)"
  shows "x * numeral w \<in> range (\<lambda>k::int. real_of_int k / 4)"
proof -
  from assms obtain a :: int where "x = of_int a / 4" by auto
  then have "x * numeral w = of_int (a * numeral w) / 4" by simp
  then show ?thesis by (rule range_eqI)
qed

lemma quarter_min:
  assumes "x \<in> range (\<lambda>k::int. real_of_int k / 4)" "y \<in> range (\<lambda>k::int. real_of_int k / 4)"
  shows "min x y \<in> range (\<lambda>k::int. real_of_int k / 4)"
  using assms by (simp add: min_def)

lemma quarter_long_url:
  "(real n * 5 - 500) / 20 \<in> range (\<lambda>k::int. real_of_int k / 4)"
proof -
  have "(real n * 5 - 500) / 20 = of_int (int n - 100) / 4" by simp
  then show ?thesis by (rule range_eqI)
qed

lemma quarter_below:
  assumes "s \<in> range (\<lambda>k::int. real_of_int k / 4)" "s < of_int m / 4"
  shows "s \<le> of_int (m - 1) / 4"
proof -
  from assms(1) obtain k :: int where k: "s = of_int k / 4" by auto
  with assms(2) have "real_of_int k < of_int m" by simp
  then have "k \<le> m - 1" by simp
  then have "real_of_int k \<le> of_int (m - 1)" by (simp only: of_int_le_iff)
  then show ?thesis unfolding k by simp
qed

lemma neutral_ge:
  assumes "0 \<le> a" "a * 5 \<le> s * 2" "fl64 a = a" "fl64 (a + 15) = a + 15"
  shows "a + 15 \<le> combinedScoreOf s 25"
proof -
  have s: "0 \<le> s" using assms(1,2) by simp
  have "a \<le> s * (2 / 5)" using assms(2) by simp
  also have "\<dots> \<le> s * fl64 (2 / 5)"
    using c04_bounds(1) s by (rule mult_left_mono)
  finally have "fl64 a \<le> fl64 (s * fl64 (2 / 5))"
    using assms(1) by (intro fl64_mono)
  then have "a + 15 \<le> fl64 (s * fl64 (2 / 5)) + 15"
    using assms(3) by simp
  moreover have "0 \<le> a + 15" using assms(1) by simp
  ultimately have "fl64 (a + 15) \<le> fl64 (fl64 (s * fl64 (2 / 5)) + 15)"
    by (intro fl64_mono)
  then show ?thesis
    using assms(4) by (simp add: combinedScoreOf_simp prod_25_c06)
qed

lemma neutral_le:
  assumes "0 \<le> s" "s * fl64 (2 / 5) \<le> of_int n / 2 ^ 4" "0 < n" "n < 2 ^ 40"
  shows "combinedScoreOf s 25 \<le> of_int (n + 240) / 2 ^ 4"
proof -
  have n: "n < 2 ^ 53" "0 < n + 240" "n + 240 < 2 ^ 53"
    using assms(3,4) by simp_all
  have c: "0 \<le> fl64 (2 / 5)" using c04_bounds(1) by simp
  have "0 \<le> s * fl64 (2 / 5)" using assms(1) c by simp
  then have "fl64 (s * fl64 (2 / 5)) \<le> fl64 (of_int n / 2 ^ 4)"
    using assms(2) by (rule fl64_mono)
  then have p: "fl64 (s * fl64 (2 / 5)) \<le> of_int n / 2 ^ 4"
    using fl64_frac [OF assms(3) n(1), of 4] by simp
  have "0 \<le> fl64 (s * fl64 (2 / 5))"
    using assms(1) c by (intro fl64_nonneg) simp
  then have "0 \<le> fl64 (s * fl64 (2 / 5)) + 15" by simp
  moreover have "fl64 (s * fl64 (2 / 5)) + 15 \<le> of_int (n + 240) / 2 ^ 4"
    using p by simp
  ultimately have "fl64 (fl64 (s * fl64 (2 / 5)) + 15) \<le> fl64 (of_int (n + 240) / 2 ^ 4)"
    by (rule fl64_mono)
  then show ?thesis
    using fl64_frac [OF n(2,3), of 4] by (simp add: combinedScoreOf_simp prod_25_c06)
qed

lemma neutral_verdict:
  assumes "s \<in> range (\<lambda>k::int. real_of_int k / 4)" "0 \<le> s"
  shows "resultOf (combinedScoreOf s 25) =
           (if 50 \<le> s * (4 / 10) + 25 * (6 / 10) then Phishing
            else if 25 \<le> s * (4 / 10) + 25 * (6 / 10) then Suspicious else Safe)"
proof -
  consider "175 \<le> s * 2" | "50 \<le> s * 2" "s * 2 < 175" | "s * 2 < 50" by linarith
  then show ?thesis
  proof cases
    case 1
    have "35 * 5 \<le> s * 2" using 1 by simp
    then have "50 \<le> combinedScoreOf s 25"
      using neutral_ge [of 35 s] by simp
    then show ?thesis using 1 by (simp add: resultOf_def)
  next
    case 2
    have "10 * 5 \<le> s * 2" using 2 by simp
    then have lo: "25 \<le> combinedScoreOf s 25"
      using neutral_ge [of 10 s] by simp
    have "s < of_int 350 / 4" using 2 by simp
    then have "s \<le> of_int (350 - 1) / 4" by (rule quarter_below [OF assms(1)])
    then have s: "s \<le> 349 / 4" by simp
    have "s * fl64 (2 / 5) \<le> 349 / 4 * fl64 (2 / 5)"
      using s c04_bounds(1) by (intro mult_right_mono) simp_all
    also have "\<dots> \<le> of_int 559 / 2 ^ 4" by (simp add: c04)
    finally have "combinedScoreOf s 25 \<le> of_int (559 + 240) / 2 ^ 4"
      by (intro neutral_le assms(2)) simp_all
    then have "combinedScoreOf s 25 < 50" by simp
    then show ?thesis using 2 lo by (simp add: resultOf_def)
  next
    case 3
    have "s < of_int 100 / 4" using 3 by simp
    then have "s \<le> of_int (100 - 1) / 4" by (rule quarter_below [OF assms(1)])
    then have s: "s \<le> 99 / 4" by simp
    have "s * fl64 (2 / 5) \<le> 99 / 4 * fl64 (2 / 5)"
      using s c04_bounds(1) by (intro mult_right_mono) simp_all
    also have "\<dots> \<le> of_int 159 / 2 ^ 4" by (simp add: c04)
    finally have "combinedScoreOf s 25 \<le> of_int (159 + 240) / 2 ^ 4"
      by (intro neutral_le assms(2)) simp_all
    then have "combinedScoreOf s 25 < 25" by simp
    then show ?thesis using 3 by (simp add: resultOf_def)
  qed
qed

lemma neutral_ai:
  "aiScoreOf False None = 25" "aiScoreOf False (Some 50) = 25"
  by (simp_all add: aiScoreOf_def orDefault_def)

subsection \<open>Bounds of the entropy below the threshold of the entropy rule\<close>

lemma foldl_minus_sum: "foldl (\<lambda>e c. e - f c) a xs = a - sum_list (map f xs)"
  for a :: real
  by (induction xs arbitrary: a) auto

lemma calculateEntropy_le_log:
  assumes "s \<noteq> []"
  shows "calculateEntropy s \<le> log 2 (real (length s))"
proof -
  let ?n = "real (length s)"
  let ?p = "\<lambda>c. real (count_list s c) / ?n"
  have npos: "0 < ?n" using assms by simp
  have ent: "calculateEntropy s = (\<Sum>c\<in>set s. - (?p c * log 2 (?p c)))"
    unfolding calculateEntropy_def Let_def
    by (simp add: foldl_minus_sum sum_list_distinct_conv_sum_set sum_negf)
  have bnd: "- (?p c * log 2 (?p c)) \<le> ?p c * log 2 ?n" if "c \<in> set s" for c
  proof -
    have k: "1 \<le> real (count_list s c)"
      using that count_list_0_iff [of s c] by (cases "count_list s c") auto
    have eq: "log 2 (?p c) = log 2 (real (count_list s c)) - log 2 ?n"
      using k npos by (simp add: log_divide)
    have "0 \<le> log 2 (real (count_list s c))" using k by simp
    moreover have "0 \<le> ?p c" by simp
    ultimately have "0 \<le> ?p c * log 2 (real (count_list s c))"
      by (rule mult_nonneg_nonneg [rotated])
    then show ?thesis unfolding eq by (simp add: right_diff_distrib)
  qed
  have "calculateEntropy s \<le> (\<Sum>c\<in>set s. ?p c * log 2 ?n)"
    unfolding ent by (rule sum_mono) (rule bnd)
  also have "\<dots> = (\<Sum>c\<in>set s. real (count_list s c)) / ?n * log 2 ?n"
    by (simp add: sum_distrib_right sum_divide_distrib)
  also have "(\<Sum>c\<in>set s. real (count_list s c)) = ?n"
    using sum_count_set [of s "set s"] by (simp flip: of_nat_sum)
  finally show ?thesis using npos by simp
qed

lemma log2_22: "log 2 22 < (45 / 10 :: real)"
proof -
  have "(22::real) < 2 powr (45 / 10)"
  proof -
    have "(2::real) powr (45/10) = 2 powr (4 + 1/2)" by simp
    also have "\<dots> = 2 powr 4 * 2 powr (1/2)" by (rule powr_add)
    also have "\<dots> = 16 * sqrt 2" by (simp add: powr_half_sqrt)
    finally have e: "(2::real) powr (45/10) = 16 * sqrt 2" .
    have "22 / 16 < sqrt (2::real)"
      by (rule real_less_rsqrt) (simp add: power2_eq_square)
    then have "22 < 16 * sqrt (2::real)" by linarith
    then show ?thesis unfolding e .
  qed
  then have "log 2 22 < (45 / 10 :: real)"
    by (subst log_less_iff) simp_all
  then show ?thesis .
qed

lemma short_url_entropy:
  assumes "length s \<le> 22"
  shows "\<not> calculateEntropy s > 45 / 10"
proof (cases "s = []")
  case True
  then show ?thesis by (simp add: calculateEntropy_def)
next
  case False
  then have pos: "0 < length s" by simp
  have "calculateEntropy s \<le> log 2 (real (length s))"
    by (rule calculateEntropy_le_log [OF False])
  also have "\<dots> \<le> log 2 22"
    using assms pos by (simp)
  finally show ?thesis using log2_22 by simp
qed





subsection \<open>The rule scores of the example inputs\<close>

lemma ex_parse: "exampleParser ''https://example.com'' =
   Some \<lparr> protocol = ''https:'', hostname = ''example.com'', pathname = ''/'', search = [], port = [] \<rparr>"
  by (simp add: exampleParser_def)

lemma ex_kw: "filter (\<lambda>kw. includesStr (toLowerCase ''https://example.com'') kw) suspiciousKeywordList = []"
  by code_simp

lemma ex_feats:
  "extractUrlFeatures exampleParser ''https://example.com'' =
    \<lparr> urlLength = 19, numDots = 1, numHyphens = 0, numUnderscores = 0, numSlashes = 2,
      numDigits = 0, numAtSymbols = 0, hasHttps = True, hasIpAddress = False,
      hasSuspiciousTld = False, hasSuspiciousKeywords = False, hasEncodedChars = False,
      domainLength = 11, pathLength = 1, queryLength = 0, numSubdomains = 0,
      hasPortNumber = False, suspiciousKeywords = [],
      entropy = calculateEntropy ''https://example.com'',
      consonantRatio = calculateConsonantRatio ''example.com'',
      digitRatio = Num 0 \<rparr>"
proof -
  have a: "reTest reIpAddress ''example.com'' = False" by code_simp
  have b: "list_ex (\<lambda>tld. endsWith (toLowerCase ''example.com'') tld) suspiciousTlds = False" by code_simp
  have c: "reTest reEncoded ''https://example.com'' = False" by code_simp
  have d: "startsWith ''https://example.com'' ''http''" by code_simp
  have e: "countMatches isDigit ''https://example.com'' = 0" by code_simp
  have f: "countMatches (\<lambda>c. c = CHR ''.'') ''https://example.com'' = 1"
     "countMatches (\<lambda>c. c = CHR ''-'') ''https://example.com'' = 0"
     "countMatches (\<lambda>c. c = CHR ''_'') ''https://example.com'' = 0"
     "countMatches (\<lambda>c. c = CHR ''/'') ''https://example.com'' = 2"
     "countMatches (\<lambda>c. c = CHR ''@'') ''https://example.com'' = 0"
    by code_simp+
  have g: "length (split CHR ''.'' ''example.com'') = 2" by code_simp
  show ?thesis
    unfolding extractUrlFeatures_def
    by (simp add: a b c d e f g ex_parse ex_kw jsDivide_def Let_def del: reTest.simps includesStr.simps split.simps)
qed

lemma ex_score:
  "calculateRiskScore (extractUrlFeatures exampleParser ''https://example.com'') =
     \<lparr> score = 0, threats = [] \<rparr>"
proof -
  have "\<not> calculateEntropy ''https://example.com'' > 45 / 10"
    by (rule short_url_entropy) simp
  then show ?thesis
    unfolding ex_feats calculateRiskScore_def urlRuleTable_def
    by (simp add: rule_def jsGreater_def)
qed

lemma xyz_score:
  "calculateRiskScore (extractUrlFeatures exampleParser ''https://example.xyz'') =
     \<lparr> score = 20, threats = [''Suspicious top-level domain detected''] \<rparr>"
proof -
  have p: "exampleParser ''https://example.xyz'' =
     Some \<lparr> protocol = ''https:'', hostname = ''example.xyz'', pathname = ''/'',
            search = [], port = [] \<rparr>"
    by (simp add: exampleParser_def)
  have kw: "filter (\<lambda>kw. includesStr (toLowerCase ''https://example.xyz'') kw)
              suspiciousKeywordList = []"
    by code_simp
  have a: "reTest reIpAddress ''example.xyz'' = False" by code_simp
  have b: "list_ex (\<lambda>tld. endsWith (toLowerCase ''example.xyz'') tld) suspiciousTlds = True"
    by code_simp
  have c: "reTest reEncoded ''https://example.xyz'' = False" by code_simp
  have d: "startsWith ''https://example.xyz'' ''http''" by code_simp
  have e: "countMatches isDigit ''https://example.xyz'' = 0"
    "countMatches (\<lambda>c. c = CHR ''-'') ''https://example.xyz'' = 0"
    "countMatches (\<lambda>c. c = CHR ''@'') ''https://example.xyz'' = 0"
    by code_simp+
  have g: "length (split CHR ''.'' ''example.xyz'') = 2" by code_simp
  have h: "\<not> calculateEntropy ''https://example.xyz'' > 45 / 10"
    by (rule short_url_entropy) simp
  show ?thesis
    unfolding calculateRiskScore_def urlRuleTable_def extractUrlFeatures_def
    using h
    by (simp add: a b c d e g p kw jsDivide_def jsGreater_def rule_def Let_def
        del: reTest.simps includesStr.simps split.simps)
qed

lemma paypal_url_score:
  "calculateRiskScore (extractUrlFeatures exampleParser ''https://paypal.evil.io'') =
     \<lparr> score = 8, threats = [''Phishing keywords detected: paypal''] \<rparr>"
proof -
  have p: "exampleParser ''https://paypal.evil.io'' =
     Some \<lparr> protocol = ''https:'', hostname = ''paypal.evil.io'', pathname = ''/'',
            search = [], port = [] \<rparr>"
    by (simp add: exampleParser_def)
  have kw: "filter (\<lambda>kw. includesStr (toLowerCase ''https://paypal.evil.io'') kw)
              suspiciousKeywordList = [''paypal'']"
    by code_simp
  have a: "reTest reIpAddress ''paypal.evil.io'' = False" by code_simp
  have b: "list_ex (\<lambda>tld. endsWith (toLowerCase ''paypal.evil.io'') tld) suspiciousTlds = False"
    by code_simp
  have c: "reTest reEncoded ''https://paypal.evil.io'' = False" by code_simp
  have d: "startsWith ''https://paypal.evil.io'' ''http''" by code_simp
  have e: "countMatches isDigit ''https://paypal.evil.io'' = 0"
    "countMatches (\<lambda>c. c = CHR ''-'') ''https://paypal.evil.io'' = 0"
    "countMatches (\<lambda>c. c = CHR ''@'') ''https://paypal.evil.io'' = 0"
    by code_simp+
  have g: "length (split CHR ''.'' ''paypal.evil.io'') = 3" by code_simp
  have h: "\<not> calculateEntropy ''https://paypal.evil.io'' > 45 / 10"
    by (rule short_url_entropy) simp
  show ?thesis
    unfolding calculateRiskScore_def urlRuleTable_def extractUrlFeatures_def
    using h
    by (simp add: a b c d e g p kw jsDivide_def jsGreater_def rule_def Let_def
        del: reTest.simps includesStr.simps split.simps)
qed





lemma email_example_score:
  "calculateEmailRiskScore exampleEmailFeatures =
     \<lparr> score = 10, threats = [''Poor grammar quality (common in phishing)''] \<rparr>"
  by (simp add: calculateEmailRiskScore_def emailRuleTable_def exampleEmailFeatures_def rule_def)

subsection \<open>The answers of the handlers to a well-formed request\<close>

lemma serve_url_SuccessE:
  assumes "serve_url P k rnd now req oracle = Success r"
  obtains (fallback) st u where
      "httpMethod req \<noteq> ''OPTIONS''" "jsonBody req = Body (Some u)" "u \<noteq> []" "truthy k" "oracle = NotOk st"
      "r = urlRuleBasedOnly u (extractUrlFeatures P u)
             (calculateRiskScore (extractUrlFeatures P u))"
  | (hybrid) d u where
      "httpMethod req \<noteq> ''OPTIONS''" "jsonBody req = Body (Some u)" "u \<noteq> []" "truthy k" "oracle = Content d"
      "r = urlHybrid rnd now u (extractUrlFeatures P u)
             (calculateRiskScore (extractUrlFeatures P u)) (urlAiAnalysis d)"
  using assms unfolding serve_url_def Let_def
  by (auto simp: truthy_def orEmpty_def
      split: if_splits json_body.splits option.splits oracle_reply.splits)

lemma serve_email_SuccessE:
  assumes "serve_email X k rnd now req oracle = Success r"
  obtains a s j b where
      "httpMethod req \<noteq> ''OPTIONS''" 
      "jsonBody req = Body \<lparr> senderField = Some s, subjectField = Some j, bodyField = Some b \<rparr>"
      "s \<noteq> []" "j \<noteq> []" "b \<noteq> []" "truthy k"
      "(\<exists>st. oracle = NotOk st \<and> a = emailDefaultAnalysis)
        \<or> (\<exists>d. oracle = Content d \<and> a = emailAiAnalysis d)"
      "r = emailHybrid rnd now s j (X s j b) (calculateEmailRiskScore (X s j b)) a"
proof -
  from assms have m: "httpMethod req \<noteq> ''OPTIONS''"
    by (auto simp: serve_email_def split: if_splits)
  from assms m obtain flds where f: "jsonBody req = Body flds"
    by (cases "jsonBody req") (auto simp: serve_email_def)
  obtain s0 j0 b0 where fl: "flds = \<lparr> senderField = s0, subjectField = j0, bodyField = b0 \<rparr>"
    by (cases flds) auto
  from assms m f fl have t: "truthy s0" "truthy j0" "truthy b0" "truthy k"
    by (auto simp: serve_email_def split: if_splits)
  then obtain s j b where sjb: "s0 = Some s" "j0 = Some j" "b0 = Some b" "s \<noteq> []" "j \<noteq> []" "b \<noteq> []"
    by (auto simp: truthy_def split: option.splits)
  show ?thesis
  proof (cases "oracle")
    case (FetchThrows x)
    with assms m f fl t show ?thesis by (simp add: serve_email_def Let_def)
  next
    case (NotOk st)
    with assms m f fl t sjb have "r = emailHybrid rnd now s j (X s j b) (calculateEmailRiskScore (X s j b)) emailDefaultAnalysis"
      by (simp add: serve_email_def Let_def orEmpty_def)
    with that m f fl t sjb NotOk show ?thesis by blast
  next
    case (ResponseJsonThrows x)
    with assms m f fl t show ?thesis by (simp add: serve_email_def Let_def)
  next
    case (Content d)
    with assms m f fl t sjb have "r = emailHybrid rnd now s j (X s j b) (calculateEmailRiskScore (X s j b)) (emailAiAnalysis d)"
      by (simp add: serve_email_def Let_def orEmpty_def)
    with that m f fl t sjb Content show ?thesis by blast
  qed
qed

lemma serve_url_Content:
  assumes "httpMethod req \<noteq> ''OPTIONS''" "jsonBody req = Body (Some u)" "u \<noteq> []" "truthy k"
  shows "serve_url P k rnd now req (Content d) =
           Success (urlHybrid rnd now u (extractUrlFeatures P u)
             (calculateRiskScore (extractUrlFeatures P u)) (urlAiAnalysis d))"
  using assms by (simp add: serve_url_def truthy_def orEmpty_def Let_def)

lemma serve_url_NotOk:
  assumes "httpMethod req \<noteq> ''OPTIONS''" "jsonBody req = Body (Some u)" "u \<noteq> []" "truthy k"
  shows "serve_url P k rnd now req (NotOk st) =
           Success (urlRuleBasedOnly u (extractUrlFeatures P u)
             (calculateRiskScore (extractUrlFeatures P u)))"
  using assms by (simp add: serve_url_def truthy_def orEmpty_def Let_def)

lemma serve_email_valid:
  assumes "httpMethod req \<noteq> ''OPTIONS''" "jsonBody req = Body flds"
    "truthy (senderField flds)" "truthy (subjectField flds)" "truthy (bodyField flds)" "truthy k"
  shows "serve_email X k rnd now req (NotOk st) =
           Success (emailHybrid rnd now (orEmpty (senderField flds)) (orEmpty (subjectField flds))
             (X (orEmpty (senderField flds)) (orEmpty (subjectField flds))
                (orEmpty (bodyField flds)))
             (calculateEmailRiskScore (X (orEmpty (senderField flds))
                (orEmpty (subjectField flds)) (orEmpty (bodyField flds))))
             emailDefaultAnalysis)"
    and "serve_email X k rnd now req (Content d) =
           Success (emailHybrid rnd now (orEmpty (senderField flds)) (orEmpty (subjectField flds))
             (X (orEmpty (senderField flds)) (orEmpty (subjectField flds))
                (orEmpty (bodyField flds)))
             (calculateEmailRiskScore (X (orEmpty (senderField flds))
                (orEmpty (subjectField flds)) (orEmpty (bodyField flds))))
             (emailAiAnalysis d))"
  using assms by (simp_all add: serve_email_def Let_def)

lemma serve_logo_valid:
  assumes "httpMethod req \<noteq> ''OPTIONS''" "jsonBody req = Body input"
    "truthy (imageUrl input) \<or> truthy (base64Image input)"
  shows "\<exists>r. serve_logo P rnd now req = Success r
           \<and> result r = verdict (calcLogoHeuristic P input)
           \<and> confidence r = probability (calcLogoHeuristic P input)
           \<and> threatIndicators r = newSet (issues (calcLogoHeuristic P input))
           \<and> suspicions (analysisDetails r) = issues (calcLogoHeuristic P input)
           \<and> detectedBrand r = brand (calcLogoHeuristic P input)
           \<and> blockchainHash r = Some (blockchainHashOf rnd)
           \<and> analysisMethod (analysisDetails r) = ''heuristic-logo-v2''"
  using assms by (auto simp: serve_logo_def Let_def)

lemma serve_logo_SuccessE:
  assumes "serve_logo P rnd now req = Success r"
  obtains input where "httpMethod req \<noteq> ''OPTIONS''" "jsonBody req = Body input"
    "truthy (imageUrl input) \<or> truthy (base64Image input)"
  using assms unfolding serve_logo_def
  by (auto split: if_splits json_body.splits)

lemma post_valid:
  "httpMethod (postJson b) \<noteq> ''OPTIONS''" "jsonBody (postJson b) = Body b"
  by (simp_all add: postJson_def)

lemma truthy_key: "truthy (Some ''key'')"
  by (simp add: truthy_def)

lemma resultOf_not_Unknown: "resultOf s \<noteq> Unknown"
  by (simp add: resultOf_def)

subsection \<open>Sets in insertion order\<close>

lemma newSet_snoc: "newSet (xs @ [x]) = setAdd (newSet xs) x"
  by (simp add: newSet_def)

lemma set_newSet: "set (newSet xs) = set xs"
  by (induction xs rule: rev_induct) (auto simp: newSet_snoc setAdd_def newSet_def)

lemma distinct_newSet: "distinct (newSet xs)"
  by (induction xs rule: rev_induct) (auto simp: newSet_snoc setAdd_def newSet_def)

lemma firstIndex_less: "x \<in> set xs \<Longrightarrow> firstIndex xs x < length xs"
  unfolding firstIndex_def
  by (induction xs) auto

lemma firstIndex_append_in: "x \<in> set xs \<Longrightarrow> firstIndex (xs @ ys) x = firstIndex xs x"
  unfolding firstIndex_def by (induction xs) auto

lemma firstIndex_append_notin:
  "x \<notin> set xs \<Longrightarrow> firstIndex (xs @ ys) x = length xs + firstIndex ys x"
  unfolding firstIndex_def by (induction xs) auto

lemma sorted_newSet:
  "sorted_wrt (\<lambda>x y. firstIndex xs x < firstIndex xs y) (newSet xs)"
proof (induction xs rule: rev_induct)
  case Nil
  show ?case by (simp add: newSet_def)
next
  case (snoc a xs)
  have old: "sorted_wrt (\<lambda>x y. firstIndex (xs @ [a]) x < firstIndex (xs @ [a]) y) (newSet xs)"
  proof (rule sorted_wrt_mono_rel [OF _ snoc.IH])
    fix x y
    assume "x \<in> set (newSet xs)" "y \<in> set (newSet xs)"
      and "firstIndex xs x < firstIndex xs y"
    then show "firstIndex (xs @ [a]) x < firstIndex (xs @ [a]) y"
      by (simp add: set_newSet firstIndex_append_in)
  qed
  show ?case
  proof (cases "a \<in> set xs")
    case True
    then show ?thesis using old by (simp add: newSet_snoc setAdd_def set_newSet)
  next
    case False
    have "firstIndex (xs @ [a]) x < firstIndex (xs @ [a]) a" if "x \<in> set xs" for x
      using that False
      by (simp add: firstIndex_append_in firstIndex_append_notin firstIndex_less trans_less_add1)
    with False old show ?thesis
      by (simp add: newSet_snoc setAdd_def set_newSet sorted_wrt_append)
  qed
qed

lemma newSet_keepsFirstOccurrences: "keepsFirstOccurrences xs (newSet xs)"
  by (simp add: keepsFirstOccurrences_def set_newSet sorted_newSet)

lemma newSet_distinct_id: "distinct xs \<Longrightarrow> newSet xs = xs"
  by (induction xs rule: rev_induct) (auto simp: newSet_snoc setAdd_def newSet_def)

lemma keepsFirstOccurrences_distinct_refl: "distinct xs \<Longrightarrow> keepsFirstOccurrences xs xs"
  using newSet_keepsFirstOccurrences [of xs] by (simp add: newSet_distinct_id)

subsection \<open>Rule tables\<close>

lemma foldl_rule:
  "foldl rule st tbl =
     (fst st + sum_list (map (\<lambda>r. fst (snd r)) (filter fst tbl)),
      snd st @ map (\<lambda>r. snd (snd r)) (filter fst tbl))"
  by (induction tbl arbitrary: st) (auto simp: rule_def split: prod.splits)

lemma distinct_fired:
  "distinct (map (\<lambda>r. snd (snd r)) tbl) \<Longrightarrow> distinct (map (\<lambda>r. snd (snd r)) (filter fst tbl))"
  by (simp add: distinct_map_filter)

lemma distinct_url_threats: "distinct (threats (calculateRiskScore f))"
  unfolding calculateRiskScore_def Let_def foldl_rule
  by (simp, rule distinct_fired) (simp add: urlRuleTable_def)

lemma fired_nonneg:
  "\<forall>r\<in>set tbl. 0 < fst (snd r) \<Longrightarrow> 0 \<le> sum_list (map (\<lambda>r. fst (snd r)) (filter fst tbl))"
  for tbl :: "(bool \<times> real \<times> string) list"
  by (induction tbl) (auto simp: add_nonneg_nonneg less_imp_le)

lemma fired_nonneg_if:
  "\<forall>r\<in>set tbl. fst r \<longrightarrow> 0 \<le> fst (snd r) \<Longrightarrow>
     0 \<le> sum_list (map (\<lambda>r. fst (snd r)) (filter fst tbl))"
  for tbl :: "(bool \<times> real \<times> string) list"
  by (induction tbl) (auto simp: add_nonneg_nonneg)

lemma url_score_range:
  "0 \<le> score (calculateRiskScore f)" "score (calculateRiskScore f) \<le> 100"
proof -
  have "0 \<le> sum_list (map (\<lambda>r. fst (snd r)) (filter fst (urlRuleTable f)))"
    by (rule fired_nonneg_if) (simp add: urlRuleTable_def)
  then show "0 \<le> score (calculateRiskScore f)"
    by (simp add: calculateRiskScore_def Let_def foldl_rule)
  show "score (calculateRiskScore f) \<le> 100"
    by (simp add: calculateRiskScore_def Let_def)
qed

lemma email_score_range:
  "0 \<le> score (calculateEmailRiskScore f)" "score (calculateEmailRiskScore f) \<le> 100"
proof -
  have "0 \<le> sum_list (map (\<lambda>r. fst (snd r)) (filter fst (emailRuleTable f)))"
    by (rule fired_nonneg_if) (simp add: emailRuleTable_def)
  then show "0 \<le> score (calculateEmailRiskScore f)"
    by (simp add: calculateEmailRiskScore_def Let_def foldl_rule)
  show "score (calculateEmailRiskScore f) \<le> 100"
    by (simp add: calculateEmailRiskScore_def Let_def)
qed

lemma fired_quarter:
  "\<forall>r\<in>set tbl. fst (snd r) \<in> range (\<lambda>k::int. real_of_int k / 4) \<Longrightarrow>
     sum_list (map (\<lambda>r. fst (snd r)) (filter fst tbl)) \<in> range (\<lambda>k::int. real_of_int k / 4)"
  for tbl :: "(bool \<times> real \<times> string) list"
  by (induction tbl) (auto intro: quarter_add quarter_simps(1) simp del: of_int_add)

lemma url_score_quarter: "score (calculateRiskScore f) \<in> range (\<lambda>k::int. real_of_int k / 4)"
proof -
  have "\<forall>r\<in>set (urlRuleTable f). fst (snd r) \<in> range (\<lambda>k::int. real_of_int k / 4)"
    unfolding urlRuleTable_def
    by (simp add: quarter_simps quarter_min quarter_mult quarter_diff quarter_long_url
        del: range_eqI)
  then have "sum_list (map (\<lambda>r. fst (snd r)) (filter fst (urlRuleTable f)))
      \<in> range (\<lambda>k::int. real_of_int k / 4)"
    by (rule fired_quarter)
  then show ?thesis
    by (simp add: calculateRiskScore_def Let_def foldl_rule quarter_min quarter_simps)
qed

lemma email_score_quarter:
  "score (calculateEmailRiskScore f) \<in> range (\<lambda>k::int. real_of_int k / 4)"
proof -
  have "\<forall>r\<in>set (emailRuleTable f). fst (snd r) \<in> range (\<lambda>k::int. real_of_int k / 4)"
    unfolding emailRuleTable_def
    by (simp add: quarter_simps quarter_min quarter_mult quarter_diff)
  then have "sum_list (map (\<lambda>r. fst (snd r)) (filter fst (emailRuleTable f)))
      \<in> range (\<lambda>k::int. real_of_int k / 4)"
    by (rule fired_quarter)
  then show ?thesis
    by (simp add: calculateEmailRiskScore_def Let_def foldl_rule quarter_min quarter_simps)
qed

lemma url_zero_rules_score_zero:
  assumes "threats (calculateRiskScore f) = []"
  shows "score (calculateRiskScore f) = 0"
proof -
  from assms have "filter fst (urlRuleTable f) = []"
    by (simp add: calculateRiskScore_def Let_def foldl_rule)
  then show ?thesis
    by (simp add: calculateRiskScore_def Let_def foldl_rule)
qed

lemma fired_zero_iff:
  "\<forall>r\<in>set tbl. 0 < fst (snd r) \<Longrightarrow>
     sum_list (map (\<lambda>r. fst (snd r)) (filter fst tbl)) = 0 \<longleftrightarrow> filter fst tbl = []"
  for tbl :: "(bool \<times> real \<times> string) list"
proof (induction tbl)
  case Nil
  show ?case by simp
next
  case (Cons r tbl)
  then have "0 \<le> sum_list (map (\<lambda>r. fst (snd r)) (filter fst tbl))" "0 < fst (snd r)"
    by (simp_all add: fired_nonneg)
  with Cons show ?case by (auto simp: add_pos_nonneg less_imp_neq [THEN not_sym])
qed

lemma logoRuleTable_pos: "\<forall>r\<in>set (logoRuleTable input). 0 < fst (snd r)"
  by (simp add: logoRuleTable_def Let_def)

lemma max_92: "max x 92 \<noteq> (0::real)" "30 < max x (92::real)" "92 \<le> max x (92::real)"
  by (simp_all add: max_def)

lemma logoScore_zero_iff: "fst (logoScore P input) = 0 \<longleftrightarrow> snd (logoScore P input) = []"
  using fired_zero_iff [OF logoRuleTable_pos, of input]
  by (simp add: logoScore_def Let_def foldl_rule max_92)

lemma logoScore_nonneg: "0 \<le> fst (logoScore P input)"
  using fired_nonneg [OF logoRuleTable_pos, of input]
  by (simp add: logoScore_def Let_def foldl_rule max_def)

lemma Math_round_range:
  assumes "0 \<le> x" "x \<le> 100"
  shows "0 \<le> Math_round x" "Math_round x \<le> 100"
proof -
  have "(0::int) \<le> \<lfloor>x + 1 / 2\<rfloor>" using assms(1) by (simp add: le_floor_iff)
  then show "0 \<le> Math_round x" by (simp add: Math_round_def)
  have "\<lfloor>x + 1 / 2\<rfloor> \<le> (100::int)" using assms(2) by (simp add: floor_le_iff)
  then have "real_of_int \<lfloor>x + 1 / 2\<rfloor> \<le> real_of_int 100" by (rule of_int_le_iff [THEN iffD2])
  then show "Math_round x \<le> 100" by (simp add: Math_round_def)
qed

lemma paypalMismatch_iff:
  "paypalMismatch P input \<longleftrightarrow>
     (\<exists>u. imageUrl input = Some u \<and> u \<noteq> [] \<and> includesStr (toLowerCase u) ''paypal''
          \<and> \<not> includesStr (domainFromUrl P u) ''paypal'' \<and> \<not> includesStr u ''paypal.com'')"
  by (auto simp: paypalMismatch_def Let_def truthy_def orEmpty_def split: option.splits)

lemma logo_no_rule_iff:
  assumes "imageUrl input = Some u" "u \<noteq> []"
  shows "snd (logoScore P input) = [] \<longleftrightarrow>
           \<not> list_ex (\<lambda>kw. includesStr (toLowerCase u) kw) PHISH_KEYWORDS
           \<and> \<not> truthy (base64Image input) \<and> startsWith u ''http''
           \<and> \<not> includesStr (toLowerCase u) ''blur'' \<and> 50 \<le> length u
           \<and> \<not> paypalMismatch P input"
  using assms
  by (auto simp: logoScore_def logoRuleTable_def rule_def Let_def truthy_def orEmpty_def)


lemma paypal_logo:
  "includesStr (toLowerCase ''https://evil.example/paypal-logo.png'') ''paypal''"
  "\<not> includesStr (domainFromUrl exampleParser ''https://evil.example/paypal-logo.png'') ''paypal''"
  "\<not> includesStr ''https://evil.example/paypal-logo.png'' ''paypal.com''"
  by code_simp+

lemma company_logo:
  "\<not> hasSafeDomain exampleParser ''https://cdn.example.org/assets/images/brand/company-logo.png''"
  "snd (logoScore exampleParser
     \<lparr> imageUrl = Some ''https://cdn.example.org/assets/images/brand/company-logo.png'',
       base64Image = None \<rparr>) = []"
proof -
  show "\<not> hasSafeDomain exampleParser ''https://cdn.example.org/assets/images/brand/company-logo.png''"
    by code_simp
  have "filter fst (logoRuleTable
     \<lparr> imageUrl = Some ''https://cdn.example.org/assets/images/brand/company-logo.png'',
       base64Image = None \<rparr>) = []"
    by code_simp
  moreover have "\<not> paypalMismatch exampleParser
     \<lparr> imageUrl = Some ''https://cdn.example.org/assets/images/brand/company-logo.png'',
       base64Image = None \<rparr>"
    by code_simp
  ultimately show "snd (logoScore exampleParser
     \<lparr> imageUrl = Some ''https://cdn.example.org/assets/images/brand/company-logo.png'',
       base64Image = None \<rparr>) = []"
    by (simp add: logoScore_def foldl_rule Let_def)
qed

subsection \<open>The format of the integrity tag\<close>

lemma hexChar_hex: "hexChar n \<in> set ''0123456789abcdef''"
proof -
  have "n mod 16 < length ''0123456789abcdef''" by simp
  then show ?thesis unfolding hexChar_def by (rule nth_mem)
qed

lemma byte_hex_length: "length (padStart 2 CHR ''0'' (toString16 b)) = 2"
  by (simp add: padStart_def toString16_def)

lemma byte_hex_chars: "set (padStart 2 CHR ''0'' (toString16 b)) \<subseteq> set ''0123456789abcdef''"
  using hexChar_hex [of "unat b"] hexChar_hex [of "unat b div 16"] hexChar_hex [of "unat b mod 16"]
  by (auto simp: padStart_def toString16_def)

lemma length_concat_const:
  "(\<And>x. x \<in> set xs \<Longrightarrow> length (f x) = n) \<Longrightarrow> length (concat (map f xs)) = n * length xs"
  by (induction xs) auto

lemma blockchainHash_format:
  "length (blockchainHashOf rnd) = 66 \<and> take 2 (blockchainHashOf rnd) = ''0x''
   \<and> set (drop 2 (blockchainHashOf rnd)) \<subseteq> set ''0123456789abcdef''"
proof -
  have "length (concat (map (\<lambda>b. padStart 2 CHR ''0'' (toString16 b)) (map rnd [0..<32]))) = 2 * 32"
    using length_concat_const [of "map rnd [0..<32]" "\<lambda>b. padStart 2 CHR ''0'' (toString16 b)" 2]
    by (simp add: byte_hex_length)
  moreover have "set (concat (map (\<lambda>b. padStart 2 CHR ''0'' (toString16 b)) (map rnd [0..<32])))
      \<subseteq> set ''0123456789abcdef''"
    using byte_hex_chars by (fastforce simp del: set_simps)
  ultimately show ?thesis by (simp add: blockchainHashOf_def)
qed

lemma example_tag:
  "blockchainHashOf (\<lambda>i. 171) =
     ''0xabababababababababababababababababababababababababababababababab''"
  by code_simp

section \<open>Brand-spoof override\<close>

text \<open>
  Claim C1 says that a URL containing a known brand keyword on a host that is not one of
  the brand's official domains is always classified \<open>phishing\<close>, whatever the oracle says.
  The URL analyzer has no such override. The URL \<^verbatim>\<open>https://paypal.evil.io\<close> contains the
  brand keyword \<^verbatim>\<open>paypal\<close> and none of PayPal's official domains; its rule score is 8, and
  with a negative oracle call of confidence 90 the verdict is \<open>safe\<close>; it is \<open>safe\<close> as well
  when the oracle is unavailable.
\<close>

theorem brand_spoof_url_counterexample:
  "includesStr (toLowerCase ''https://paypal.evil.io'') ''paypal''
   \<and> list_all (\<lambda>d. \<not> includesStr (toLowerCase ''https://paypal.evil.io'') d)
        paypalOfficialDomains
   \<and> map_option (\<lambda>r. (result r, ruleBasedScore (analysisDetails r), threatIndicators r))
     (payload (serve_url exampleParser (Some ''key'') (\<lambda>i. 0) ''now''
        (postJson (Some ''https://paypal.evil.io''))
        (Content (Parsed \<lparr> isPhishing = False, aiConfidence = Some 90,
           reasoning = None, additionalThreats = None \<rparr>))))
     = Some (Safe, 8, [''Phishing keywords detected: paypal''])
   \<and> map_option result
     (payload (serve_url exampleParser (Some ''key'') (\<lambda>i. 0) ''now''
        (postJson (Some ''https://paypal.evil.io'')) (NotOk 503)))
     = Some Safe"
proof -
  have "includesStr (toLowerCase ''https://paypal.evil.io'') ''paypal''"
    "list_all (\<lambda>d. \<not> includesStr (toLowerCase ''https://paypal.evil.io'') d)
        paypalOfficialDomains"
    by code_simp+
  then show ?thesis
    by (simp add: serve_url_Content [OF post_valid _ truthy_key]
      serve_url_NotOk [OF post_valid _ truthy_key] urlRuleBasedOnly_def payload_def urlHybrid_def
      urlAiAnalysis_def paypal_url_score aiScoreOf_def combined_8_5 orDefault_def
      resultOf_def newSet_def setAdd_def truthy_def urlAllThreats_def Let_def)
qed

text \<open>
  Claim C1, as the code has it. The override exists in the heuristic logo analyzer, for
  the brand PayPal: an image URL whose lower-cased text contains \<^verbatim>\<open>paypal\<close>, whose host name
  does not contain \<^verbatim>\<open>paypal\<close> and whose text does not contain \<^verbatim>\<open>paypal.com\<close> is classified
  \<open>phishing\<close> with a score between the floor 92 and the cap 95, and the indicator of the
  override is reported. That analyzer consults no oracle.
\<close>

theorem paypal_logo_override:
  assumes "httpMethod req \<noteq> ''OPTIONS''" and "jsonBody req = Body input"
    and "imageUrl input = Some u" and "u \<noteq> []"
    and "includesStr (toLowerCase u) ''paypal''"
    and "\<not> includesStr (domainFromUrl P u) ''paypal''"
    and "\<not> includesStr u ''paypal.com''"
  shows "\<exists>r. serve_logo P rnd now req = Success r \<and> result r = Phishing
           \<and> 92 \<le> confidence r \<and> confidence r \<le> 95
           \<and> ''PayPal brand on non-official source'' \<in> set (threatIndicators r)"
proof -
  have m: "paypalMismatch P input"
    using assms(3-7) by (auto simp: paypalMismatch_iff)
  have t: "truthy (imageUrl input)" using assms(3,4) by (simp add: truthy_def)
  define st where "st = foldl rule (0, []) (logoRuleTable input)"
  have ls: "logoScore P input = (max (fst st) 92, snd st @ [''PayPal brand on non-official source''])"
    using m by (simp add: logoScore_def Let_def st_def)
  have c: "verdict (calcLogoHeuristic P input) = Phishing"
    "probability (calcLogoHeuristic P input) = min 95 (max (fst st) 92)"
    "issues (calcLogoHeuristic P input) = snd st @ [''PayPal brand on non-official source'']"
    by (simp_all add: calcLogoHeuristic_def Let_def ls max_92)
  from serve_logo_valid [OF assms(1,2) disjI1 [OF t], of P rnd now]
  obtain r where "serve_logo P rnd now req = Success r"
    "result r = verdict (calcLogoHeuristic P input)"
    "confidence r = probability (calcLogoHeuristic P input)"
    "threatIndicators r = newSet (issues (calcLogoHeuristic P input))"
    by blast
  then show ?thesis using c by (simp add: set_newSet max_92)
qed

text \<open>The logo \<^verbatim>\<open>https://evil.example/paypal-logo.png\<close> is such an input.\<close>

theorem paypal_logo_override_witness:
  "map_option (\<lambda>r. (result r, confidence r, threatIndicators r))
     (payload (serve_logo exampleParser (\<lambda>i. 0) ''now''
        (postJson \<lparr> imageUrl = Some ''https://evil.example/paypal-logo.png'',
                    base64Image = None \<rparr>)))
     = Some (Phishing, 92, [''Low-signal / potentially blurred image reference'',
                            ''PayPal brand on non-official source''])"
proof -
  let ?input = "\<lparr> imageUrl = Some ''https://evil.example/paypal-logo.png'', base64Image = None \<rparr>"
  have u: "imageUrl ?input = Some ''https://evil.example/paypal-logo.png''"
    and ne: "''https://evil.example/paypal-logo.png'' \<noteq> []"
    by simp_all
  have f: "map fst (logoRuleTable ?input) = [False, False, True]"
    by code_simp
  have m: "paypalMismatch exampleParser ?input"
    using paypal_logo by (simp add: paypalMismatch_iff)
  have ls: "logoScore exampleParser ?input =
      (92, [''Low-signal / potentially blurred image reference'',
            ''PayPal brand on non-official source''])"
    using f m by (simp add: logoScore_def Let_def logoRuleTable_def rule_def)
  from paypal_logo_override [OF post_valid u ne paypal_logo, of "\<lambda>i. 0" "''now''"]
  obtain r where r: "serve_logo exampleParser (\<lambda>i. 0) ''now'' (postJson ?input) = Success r"
    "result r = Phishing" by blast
  have t: "truthy (imageUrl ?input)" by (simp add: truthy_def)
  from serve_logo_valid [OF post_valid disjI1 [OF t], of exampleParser "\<lambda>i. 0" "''now''"] r
  have "confidence r = probability (calcLogoHeuristic exampleParser ?input)"
    "threatIndicators r = newSet (issues (calcLogoHeuristic exampleParser ?input))"
    by auto
  then have "confidence r = 92" "threatIndicators r =
      [''Low-signal / potentially blurred image reference'', ''PayPal brand on non-official source'']"
    by (simp_all add: calcLogoHeuristic_def Let_def ls newSet_def setAdd_def)
  with r show ?thesis by (simp add: payload_def)
qed

section \<open>Range of the confidence\<close>

text \<open>
  Claim C2 says that the confidence of every successful result lies between 0 and 100;
  the table that stores the results enforces the same range. The URL handler computes
  \<open>100 - finalConfidence + 50\<close> for a verdict other than \<open>safe\<close>, which exceeds 100 as soon as
  \<open>finalConfidence\<close> is below 50: for \<^verbatim>\<open>https://example.com\<close> (rule score 0) and a positive
  oracle call of confidence 20, the combined score is 36, the verdict \<open>suspicious\<close> and the
  reported confidence 114.
\<close>

theorem url_confidence_out_of_range:
  "map_option confidence (payload (serve_url exampleParser (Some ''key'') (\<lambda>i. 0) ''now''
       (postJson (Some ''https://example.com''))
       (Content (Parsed \<lparr> isPhishing = True, aiConfidence = Some 20,
          reasoning = None, additionalThreats = None \<rparr>)))) = Some 114"
  by (simp add: serve_url_Content [OF post_valid _ truthy_key] payload_def urlHybrid_def
      urlAiAnalysis_def ex_score aiScoreOf_def combined_0_60 orDefault_def resultOf_def
      Math_round_def Let_def)

text \<open>
  The other paths stay in the range: the rule-based fallback of the URL handler (between
  50 and 100), the logo handler, and the email handler when the oracle's confidence is
  absent or between 0 and 100.
\<close>

lemma confidence_in_range_elsewhere:
  "(serve_url P k rnd now req orc = Success r \<and> aiAnalysis (analysisDetails r) = None \<longrightarrow>
      50 \<le> confidence r \<and> confidence r \<le> 100)
   \<and> (serve_email X k' rnd' now' req' orc' = Success r'
        \<and> aiAnalysis (analysisDetails r') = Some a
        \<and> (case emConfidence a of None \<Rightarrow> True | Some c \<Rightarrow> 0 \<le> c \<and> c \<le> 100) \<longrightarrow>
      0 \<le> confidence r' \<and> confidence r' \<le> 100)
   \<and> (serve_logo P'' rnd'' now'' req'' = Success r'' \<longrightarrow>
      0 \<le> confidence r'' \<and> confidence r'' \<le> 100)"
proof (intro conjI impI; (elim conjE)?)
  assume s: "serve_url P k rnd now req orc = Success r"
    and n: "aiAnalysis (analysisDetails r) = None"
  from s n obtain u where "r = urlRuleBasedOnly u (extractUrlFeatures P u)
      (calculateRiskScore (extractUrlFeatures P u))"
    by (cases rule: serve_url_SuccessE) (simp_all add: urlHybrid_def Let_def)
  then show "50 \<le> confidence r" "confidence r \<le> 100"
    using url_score_range [of "extractUrlFeatures P u"]
    by (simp_all add: urlRuleBasedOnly_def abs_if)
next
  assume s: "serve_email X k' rnd' now' req' orc' = Success r'"
    and a: "aiAnalysis (analysisDetails r') = Some a"
    and c: "case emConfidence a of None \<Rightarrow> True | Some c \<Rightarrow> 0 \<le> c \<and> c \<le> 100"
  from s obtain a0 sn sj ft where
    e: "r' = emailHybrid rnd' now' sn sj ft (calculateEmailRiskScore ft) a0"
    by (cases rule: serve_email_SuccessE) auto
  with a have a0: "a0 = a" by (simp add: emailHybrid_def Let_def)
  define ai where "ai = aiScoreOf (emIsPhishing a) (emConfidence a)"
  define cmb where "cmb = combinedScoreOf (score (calculateEmailRiskScore ft)) ai"
  have d: "0 < orDefault (emConfidence a) 50 \<and> orDefault (emConfidence a) 50 \<le> 100"
    using c by (auto simp: orDefault_def split: option.splits)
  then have ai: "0 \<le> ai" "ai \<le> 100"
    unfolding ai_def by (rule aiScoreOf_range)+
  have cm: "0 \<le> cmb" "cmb \<le> 100"
    unfolding cmb_def using email_score_range [of ft] ai by (rule combinedScoreOf_range)+
  have conf: "confidence r' = Math_round (if resultOf cmb = Safe then fl64 (100 - cmb)
                                            else min 98 (fl64 (cmb + 20)))"
    unfolding e a0 by (simp add: emailHybrid_def Let_def cmb_def ai_def)
  have "0 \<le> fl64 (100 - cmb)" "0 \<le> fl64 (cmb + 20)"
    using cm by (simp_all add: fl64_nonneg)
  moreover have "fl64 (100 - cmb) \<le> fl64 100"
    using cm by (intro fl64_mono) simp_all
  ultimately have "0 \<le> (if resultOf cmb = Safe then fl64 (100 - cmb) else min 98 (fl64 (cmb + 20)))"
    "(if resultOf cmb = Safe then fl64 (100 - cmb) else min 98 (fl64 (cmb + 20))) \<le> 100"
    by auto
  then show "0 \<le> confidence r'" "confidence r' \<le> 100"
    unfolding conf by (rule Math_round_range)+
next
  assume s: "serve_logo P'' rnd'' now'' req'' = Success r''"
  then obtain input where v: "httpMethod req'' \<noteq> ''OPTIONS''" "jsonBody req'' = Body input"
    "truthy (imageUrl input) \<or> truthy (base64Image input)"
    by (rule serve_logo_SuccessE)
  from serve_logo_valid [OF v, of P'' rnd'' now''] s
  have "confidence r'' = probability (calcLogoHeuristic P'' input)" by auto
  then show "0 \<le> confidence r''" "confidence r'' \<le> 100"
    using logoScore_nonneg [of P'' input]
    by (auto simp: calcLogoHeuristic_def Let_def)
qed

section \<open>Oracle failure\<close>

text \<open>
  Claim C3 says that no failure of the oracle call reaches the caller as an error and that
  the result is then computed by the rule-based path alone, with a method tag that shows
  it. In the URL handler a rejected \<^verbatim>\<open>fetch\<close> ends in the \<^verbatim>\<open>catch\<close> of the handler, which
  answers with status 500; and when the oracle's content does not parse, the handler
  continues on the hybrid path with a neutral analysis and the method tag \<^verbatim>\<open>hybrid-ai\<close>.
\<close>

theorem oracle_failure_counterexample:
  "serve_url exampleParser (Some ''key'') (\<lambda>i. 0) ''now''
       (postJson (Some ''https://example.com'')) (FetchThrows ''error sending request'')
     = ErrorResponse 500 ''error sending request''
   \<and> map_option (\<lambda>r. analysisMethod (analysisDetails r))
        (payload (serve_url exampleParser (Some ''key'') (\<lambda>i. 0) ''now''
          (postJson (Some ''https://example.com'')) (Content ParseThrows)))
     = Some ''hybrid-ai''"
  by (simp add: serve_url_Content [OF post_valid _ truthy_key] payload_def urlHybrid_def Let_def)
    (simp add: serve_url_def postJson_def truthy_def Let_def)

text \<open>
  Claim C3, as the code has it. For a well-formed request:
  \<^item> when the oracle answers with a status that is not 2xx, the URL handler returns a
    complete result computed from the rule score alone (verdict by the thresholds on the
    rule score, confidence \<open>100 - |50 - score|\<close>, the rule threats), tagged \<^verbatim>\<open>rule-based\<close>;
  \<^item> when the oracle's content holds no JSON object or does not parse, the URL handler
    returns a result tagged \<^verbatim>\<open>hybrid-ai\<close>, in which a neutral oracle call (scaled to 25)
    is combined with the rule score;
  \<^item> in both cases the email handler returns a result tagged \<^verbatim>\<open>hybrid-email-ai\<close>
    computed with its neutral default analysis.
  None of these cases is reported as an error.
\<close>

theorem oracle_degraded_modes:
  "(httpMethod req \<noteq> ''OPTIONS'' \<and> jsonBody req = Body (Some u) \<and> u \<noteq> [] \<and> truthy k \<longrightarrow>
      (\<exists>r. serve_url P k rnd now req (NotOk st) = Success r
            \<and> analysisMethod (analysisDetails r) = ''rule-based''
            \<and> aiAnalysis (analysisDetails r) = None
            \<and> (let s = score (calculateRiskScore (extractUrlFeatures P u))
               in result r = (if 50 \<le> s then Phishing else if 25 \<le> s then Suspicious else Safe)
                \<and> confidence r = 100 - \<bar>50 - s\<bar>
                \<and> ruleBasedScore (analysisDetails r) = s)
            \<and> threatIndicators r = threats (calculateRiskScore (extractUrlFeatures P u)))
       \<and> (d = NoMatch \<or> d = ParseThrows \<longrightarrow>
           (\<exists>r. serve_url P k rnd now req (Content d) = Success r
            \<and> analysisMethod (analysisDetails r) = ''hybrid-ai''
            \<and> (let c = score (calculateRiskScore (extractUrlFeatures P u)) * (4 / 10)
                        + 25 * (6 / 10)
               in result r = (if 50 \<le> c then Phishing else if 25 \<le> c then Suspicious else Safe)))))
   \<and> (httpMethod req' \<noteq> ''OPTIONS'' \<and> jsonBody req' = Body flds
        \<and> truthy (senderField flds) \<and> truthy (subjectField flds) \<and> truthy (bodyField flds)
        \<and> truthy k'
        \<and> (orc = NotOk st' \<or> orc = Content NoMatch \<or> orc = Content ParseThrows) \<longrightarrow>
      (\<exists>r. serve_email X k' rnd' now' req' orc = Success r
            \<and> analysisMethod (analysisDetails r) = ''hybrid-email-ai''
            \<and> aiAnalysis (analysisDetails r) = Some emailDefaultAnalysis
            \<and> (let c = ruleBasedScore (analysisDetails r) * (4 / 10) + 25 * (6 / 10)
               in result r = (if 50 \<le> c then Phishing else if 25 \<le> c then Suspicious else Safe))))"
proof (intro conjI impI; (elim conjE)?)
  assume v: "httpMethod req \<noteq> ''OPTIONS''" "jsonBody req = Body (Some u)" "u \<noteq> []" "truthy k"
  show "\<exists>r. serve_url P k rnd now req (NotOk st) = Success r
            \<and> analysisMethod (analysisDetails r) = ''rule-based''
            \<and> aiAnalysis (analysisDetails r) = None
            \<and> (let s = score (calculateRiskScore (extractUrlFeatures P u))
               in result r = (if 50 \<le> s then Phishing else if 25 \<le> s then Suspicious else Safe)
                \<and> confidence r = 100 - \<bar>50 - s\<bar>
                \<and> ruleBasedScore (analysisDetails r) = s)
            \<and> threatIndicators r = threats (calculateRiskScore (extractUrlFeatures P u))"
    unfolding serve_url_NotOk [OF v]
    by (simp add: urlRuleBasedOnly_def resultOf_def Let_def)
next
  assume v: "httpMethod req \<noteq> ''OPTIONS''" "jsonBody req = Body (Some u)" "u \<noteq> []" "truthy k"
  assume "d = NoMatch \<or> d = ParseThrows"
  then have "aiScoreOf (isPhishing (urlAiAnalysis d)) (aiConfidence (urlAiAnalysis d)) = 25"
    by (auto simp: urlAiAnalysis_def neutral_ai)
  then show "\<exists>r. serve_url P k rnd now req (Content d) = Success r
            \<and> analysisMethod (analysisDetails r) = ''hybrid-ai''
            \<and> (let c = score (calculateRiskScore (extractUrlFeatures P u)) * (4 / 10)
                        + 25 * (6 / 10)
               in result r = (if 50 \<le> c then Phishing else if 25 \<le> c then Suspicious else Safe))"
    unfolding serve_url_Content [OF v]
    by (simp add: urlHybrid_def Let_def
        neutral_verdict [OF url_score_quarter url_score_range(1), simplified])
next
  assume v: "httpMethod req' \<noteq> ''OPTIONS''" "jsonBody req' = Body flds"
    "truthy (senderField flds)" "truthy (subjectField flds)" "truthy (bodyField flds)" "truthy k'"
  assume o: "orc = NotOk st' \<or> orc = Content NoMatch \<or> orc = Content ParseThrows"
  have ai: "aiScoreOf (emIsPhishing emailDefaultAnalysis) (emConfidence emailDefaultAnalysis) = 25"
    by (simp add: emailDefaultAnalysis_def neutral_ai)
  from o show "\<exists>r. serve_email X k' rnd' now' req' orc = Success r
            \<and> analysisMethod (analysisDetails r) = ''hybrid-email-ai''
            \<and> aiAnalysis (analysisDetails r) = Some emailDefaultAnalysis
            \<and> (let c = ruleBasedScore (analysisDetails r) * (4 / 10) + 25 * (6 / 10)
               in result r = (if 50 \<le> c then Phishing else if 25 \<le> c then Suspicious else Safe))"
    using ai
    by (auto simp: serve_email_valid [OF v] emailAiAnalysis_def emailHybrid_def Let_def
        neutral_verdict [OF email_score_quarter email_score_range(1), simplified])
qed

text \<open>
  The URL \<^verbatim>\<open>https://example.xyz\<close> (rule score 20) and the example email, with an oracle
  that answers 503 or whose content does not parse.
\<close>

theorem oracle_degraded_modes_witness:
  "map_option (\<lambda>r. (analysisMethod (analysisDetails r), result r, confidence r))
     (payload (serve_url exampleParser (Some ''key'') (\<lambda>i. 0) ''now''
        (postJson (Some ''https://example.xyz'')) (NotOk 503)))
     = Some (''rule-based'', Safe, 70)
   \<and> map_option (\<lambda>r. (analysisMethod (analysisDetails r), result r))
     (payload (serve_url exampleParser (Some ''key'') (\<lambda>i. 0) ''now''
        (postJson (Some ''https://example.xyz'')) (Content ParseThrows)))
     = Some (''hybrid-ai'', Safe)
   \<and> map_option (\<lambda>r. (analysisMethod (analysisDetails r), result r))
     (payload (serve_email (\<lambda>s j b. exampleEmailFeatures) (Some ''key'') (\<lambda>i. 0) ''now''
        (postJson \<lparr> senderField = Some ''alice@example.com'', subjectField = Some ''Hello'',
                    bodyField = Some ''Dear customer,  HELLO from us'' \<rparr>) (NotOk 503)))
     = Some (''hybrid-email-ai'', Safe)"
proof -
  let ?flds = "\<lparr> senderField = Some ''alice@example.com'', subjectField = Some ''Hello'',
                    bodyField = Some ''Dear customer,  HELLO from us'' \<rparr>"
  have ne: "''https://example.xyz'' \<noteq> []" by simp
  have t: "truthy (senderField ?flds)" "truthy (subjectField ?flds)" "truthy (bodyField ?flds)"
    by (simp_all add: truthy_def)
  have e: "ruleBasedScore (analysisDetails r) = 10"
    if "serve_email (\<lambda>s j b. exampleEmailFeatures) (Some ''key'') (\<lambda>i. 0) ''now''
          (postJson ?flds) (NotOk 503) = Success r" for r
    using that
    by (auto simp: serve_email_valid [OF post_valid t truthy_key] emailHybrid_def
        email_example_score Let_def)
  from oracle_degraded_modes [of "postJson (Some ''https://example.xyz'')"
      "''https://example.xyz''" "Some ''key''" exampleParser "\<lambda>i. 0" "''now''" 503 ParseThrows
      "postJson ?flds" ?flds "Some ''key''" "NotOk 503" 503 "\<lambda>s j b. exampleEmailFeatures"
      "\<lambda>i. 0" "''now''"]
  show ?thesis
    using e by (auto simp: payload_def xyz_score post_valid truthy_def Let_def)
qed

section \<open>Verdict thresholds\<close>



section \<open>Scaling of the oracle call and weighted combination\<close>

text \<open>
  Claim C5 says that a positive call of confidence \<open>c\<close> is scaled to \<open>50 + c/2\<close> and a
  negative one to \<open>50 - c/2\<close> for every \<open>c\<close> from 0 to 100. The code reads the confidence as
  \<^verbatim>\<open>aiAnalysis.confidence || 50\<close>, and 0 is falsy: a confidence of 0 is replaced by the
  default 50 of a missing confidence. A positive call of confidence 0 is scaled to 75
  and a negative one to 25, where the claim has 50 for both, and where the confidence 1
  is scaled to 50.5 and 49.5. For \<^verbatim>\<open>https://example.com\<close> (rule score 0) and a negative
  call of confidence 0 the handler reports the oracle score 25, the combined score 15
  and the verdict \<open>safe\<close>; the scaling of the claim gives the oracle score 50, the
  combined score 30 and the verdict \<open>suspicious\<close>. With a positive call of confidence 0
  the handler reports 75 and 45 where the claim gives 50 and 30.
\<close>

theorem zero_confidence_read_as_missing:
  "aiScoreOf True (Some 0) = 75 \<and> aiScoreOf False (Some 0) = 25
   \<and> aiScoreOf True (Some 1) = 101 / 2 \<and> aiScoreOf False (Some 1) = 99 / 2
   \<and> aiScoreOf True None = 75 \<and> aiScoreOf False None = 25
   \<and> map_option (\<lambda>r. (aiScore (analysisDetails r), combinedScore (analysisDetails r), result r))
        (payload (serve_url exampleParser (Some ''key'') (\<lambda>i. 0) ''now''
          (postJson (Some ''https://example.com''))
          (Content (Parsed \<lparr> isPhishing = False, aiConfidence = Some 0,
             reasoning = None, additionalThreats = None \<rparr>))))
     = Some (Some 25, Some 15, Safe)
   \<and> map_option (\<lambda>r. (aiScore (analysisDetails r), combinedScore (analysisDetails r), result r))
        (payload (serve_url exampleParser (Some ''key'') (\<lambda>i. 0) ''now''
          (postJson (Some ''https://example.com''))
          (Content (Parsed \<lparr> isPhishing = True, aiConfidence = Some 0,
             reasoning = None, additionalThreats = None \<rparr>))))
     = Some (Some 75, Some 45, Suspicious)"
proof -
  have h: "fl64 (101 / 2) = 101 / 2" "fl64 (99 / 2) = 99 / 2"
    using fl64_frac [of 101 1] fl64_frac [of 99 1] by simp_all
  have a: "aiScoreOf True (Some 0) = 75" "aiScoreOf False (Some 0) = 25"
    "aiScoreOf True (Some 1) = 101 / 2" "aiScoreOf False (Some 1) = 99 / 2"
    "aiScoreOf True None = 75" "aiScoreOf False None = 25"
    by (simp_all add: aiScoreOf_def orDefault_def h)
  have c: "combinedScoreOf 0 75 = 45" "combinedScoreOf 0 25 = 15"
    by (simp_all add: combinedScoreOf_simp prod_75_c06 prod_25_c06 fl64_zero)
  show ?thesis
    by (simp add: a c serve_url_Content [OF post_valid _ truthy_key] payload_def urlHybrid_def
        urlAiAnalysis_def ex_score resultOf_def Math_round_def Let_def)
qed

section \<open>Safe-domain floor\<close>




section \<open>The verdict unknown\<close>

text \<open>
  Claim C7 says that every artifact that triggers no rule and matches no known-safe domain
  gets the verdict \<open>unknown\<close>. The URL handler has no such verdict: for
  \<^verbatim>\<open>https://example.com\<close> no rule fires (rule score 0, no indicator), and with a negative
  oracle call of confidence 90 the verdict is \<open>safe\<close>.
\<close>

theorem url_no_rule_is_safe_counterexample:
  "map_option (\<lambda>r. (result r, ruleBasedScore (analysisDetails r), threatIndicators r))
     (payload (serve_url exampleParser (Some ''key'') (\<lambda>i. 0) ''now''
        (postJson (Some ''https://example.com''))
        (Content (Parsed \<lparr> isPhishing = False, aiConfidence = Some 90,
           reasoning = None, additionalThreats = None \<rparr>))))
     = Some (Safe, 0, [])"
  by (simp add: serve_url_Content [OF post_valid _ truthy_key] payload_def urlHybrid_def
      urlAiAnalysis_def ex_score aiScoreOf_def combined_0_5 orDefault_def
      resultOf_def newSet_def urlAllThreats_def truthy_def Let_def)

text \<open>
  Claim C7, as the code has it. In the heuristic logo analyzer, an input for which no rule
  records an issue and whose URL is not on a known-safe domain gets the verdict \<open>unknown\<close>
  (score 45); an uploaded base64 image without an image URL gets the verdict \<open>unknown\<close>
  as well (score 30, from the rule for local images, and no brand). The URL and the email
  handler never answer \<open>unknown\<close>.
\<close>

theorem logo_unknown_verdict:
  "(httpMethod req \<noteq> ''OPTIONS'' \<and> jsonBody req = Body input
      \<and> (truthy (imageUrl input) \<or> truthy (base64Image input))
      \<and> snd (logoScore P input) = []
      \<and> \<not> (truthy (imageUrl input) \<and> hasSafeDomain P (orEmpty (imageUrl input))) \<longrightarrow>
      (\<exists>r. serve_logo P rnd now req = Success r \<and> result r = Unknown \<and> confidence r = 45))
   \<and> (httpMethod req \<noteq> ''OPTIONS'' \<and> jsonBody req = Body input
      \<and> \<not> truthy (imageUrl input) \<and> truthy (base64Image input) \<longrightarrow>
      (\<exists>r. serve_logo P rnd now req = Success r \<and> result r = Unknown \<and> confidence r = 30
           \<and> detectedBrand r = None))
   \<and> (serve_url P' k rnd' now' req' orc = Success r' \<longrightarrow> result r' \<noteq> Unknown)
   \<and> (serve_email X k'' rnd'' now'' req'' orc'' = Success r'' \<longrightarrow> result r'' \<noteq> Unknown)"
proof (intro conjI impI; (elim conjE)?)
  assume v: "httpMethod req \<noteq> ''OPTIONS''" "jsonBody req = Body input"
    "truthy (imageUrl input) \<or> truthy (base64Image input)"
    and z: "snd (logoScore P input) = []"
    and n: "\<not> (truthy (imageUrl input) \<and> hasSafeDomain P (orEmpty (imageUrl input)))"
  from z have "fst (logoScore P input) = 0" by (simp add: logoScore_zero_iff)
  with n have "verdict (calcLogoHeuristic P input) = Unknown"
    "probability (calcLogoHeuristic P input) = 45"
    by (auto simp: calcLogoHeuristic_def Let_def)
  with serve_logo_valid [OF v, of P rnd now]
  show "\<exists>r. serve_logo P rnd now req = Success r \<and> result r = Unknown \<and> confidence r = 45"
    by auto
next
  assume v: "httpMethod req \<noteq> ''OPTIONS''" "jsonBody req = Body input"
    and i: "\<not> truthy (imageUrl input)" and b: "truthy (base64Image input)"
  from i have e: "orEmpty (imageUrl input) = []"
    by (auto simp: truthy_def orEmpty_def split: option.splits)
  have np: "\<not> includesStr [] ''paypal''" "\<not> includesStr [] ''netflix''" "\<not> includesStr [] ''amazon''"
    by simp_all
  have "logoScore P input = (30, [''Local/base64 image (source cannot be verified)''])"
    using i b
    by (simp add: logoScore_def logoRuleTable_def paypalMismatch_def rule_def Let_def)
  then have "verdict (calcLogoHeuristic P input) = Unknown"
    "probability (calcLogoHeuristic P input) = 30" "brand (calcLogoHeuristic P input) = None"
    using i np by (simp_all add: calcLogoHeuristic_def Let_def e toLowerCase_def)
  with serve_logo_valid [OF v disjI2 [OF b], of P rnd now]
  show "\<exists>r. serve_logo P rnd now req = Success r \<and> result r = Unknown \<and> confidence r = 30
           \<and> detectedBrand r = None"
    by auto
next
  assume "serve_url P' k rnd' now' req' orc = Success r'"
  then show "result r' \<noteq> Unknown"
    by (cases rule: serve_url_SuccessE)
      (simp_all add: urlRuleBasedOnly_def urlHybrid_def Let_def resultOf_not_Unknown)
next
  assume "serve_email X k'' rnd'' now'' req'' orc'' = Success r''"
  then obtain a0 sn sj ft where
    "r'' = emailHybrid rnd'' now'' sn sj ft (calculateEmailRiskScore ft) a0"
    by (cases rule: serve_email_SuccessE) auto
  then show "result r'' \<noteq> Unknown"
    by (simp add: emailHybrid_def Let_def resultOf_not_Unknown)
qed

theorem logo_unknown_verdict_witness:
  "map_option (\<lambda>r. (result r, confidence r))
     (payload (serve_logo exampleParser (\<lambda>i. 0) ''now''
        (postJson \<lparr> imageUrl = Some ''https://cdn.example.org/assets/images/brand/company-logo.png'',
                    base64Image = None \<rparr>)))
     = Some (Unknown, 45)
   \<and> map_option (\<lambda>r. (result r, confidence r, detectedBrand r))
     (payload (serve_logo exampleParser (\<lambda>i. 0) ''now''
        (postJson \<lparr> imageUrl = None,
                    base64Image = Some ''data:image/png;base64,iVBORw0KGgo='' \<rparr>)))
     = Some (Unknown, 30, None)
   \<and> map_option result
     (payload (serve_url exampleParser (Some ''key'') (\<lambda>i. 0) ''now''
        (postJson (Some ''https://example.xyz'')) (NotOk 503))) \<noteq> Some Unknown
   \<and> map_option result
     (payload (serve_email (\<lambda>s j b. exampleEmailFeatures) (Some ''key'') (\<lambda>i. 0) ''now''
        (postJson \<lparr> senderField = Some ''alice@example.com'', subjectField = Some ''Hello'',
                    bodyField = Some ''Dear customer,  HELLO from us'' \<rparr>) (NotOk 503)))
       \<noteq> Some Unknown"
proof -
  let ?i1 = "\<lparr> imageUrl = Some ''https://cdn.example.org/assets/images/brand/company-logo.png'',
                base64Image = None \<rparr>"
  let ?i2 = "\<lparr> imageUrl = None, base64Image = Some ''data:image/png;base64,iVBORw0KGgo='' \<rparr>"
  let ?flds = "\<lparr> senderField = Some ''alice@example.com'', subjectField = Some ''Hello'',
                   bodyField = Some ''Dear customer,  HELLO from us'' \<rparr>"
  note T = logo_unknown_verdict
  have 1: "\<exists>r. serve_logo exampleParser (\<lambda>i. 0) ''now'' (postJson ?i1) = Success r
             \<and> result r = Unknown \<and> confidence r = 45"
    using T [THEN conjunct1, of "postJson ?i1" ?i1 exampleParser "\<lambda>i. 0" "''now''"] company_logo
    by (simp add: post_valid truthy_def orEmpty_def)
  have 2: "\<exists>r. serve_logo exampleParser (\<lambda>i. 0) ''now'' (postJson ?i2) = Success r
             \<and> result r = Unknown \<and> confidence r = 30 \<and> detectedBrand r = None"
    using T [THEN conjunct2, THEN conjunct1, of "postJson ?i2" ?i2 exampleParser "\<lambda>i. 0" "''now''"]
    by (simp add: post_valid truthy_def)
  have 3: "serve_url exampleParser (Some ''key'') (\<lambda>i. 0) ''now''
        (postJson (Some ''https://example.xyz'')) (NotOk 503) = Success r \<Longrightarrow> result r \<noteq> Unknown"
    for r
    using T [THEN conjunct2, THEN conjunct2, THEN conjunct1] by blast
  have 4: "serve_email (\<lambda>s j b. exampleEmailFeatures) (Some ''key'') (\<lambda>i. 0) ''now''
        (postJson ?flds) (NotOk 503) = Success r \<Longrightarrow> result r \<noteq> Unknown" for r
    using T [THEN conjunct2, THEN conjunct2, THEN conjunct2] by blast
  from 1 2 3 4 show ?thesis
    by (auto simp: payload_def split: response.splits)
qed

section \<open>Threat indicators\<close>

text \<open>
  Claim C8 says that the list of threat indicators is deduplicated, ordered by first
  occurrence and truncated to a fixed maximum count. The URL handler does not truncate:
  with nine distinct threats from the oracle the result lists nine indicators, more than
  the eight the email handler keeps.
\<close>

theorem url_indicators_not_truncated_counterexample:
  "map_option (\<lambda>r. length (threatIndicators r))
     (payload (serve_url exampleParser (Some ''key'') (\<lambda>i. 0) ''now''
        (postJson (Some ''https://example.com''))
        (Content (Parsed \<lparr> isPhishing = True, aiConfidence = Some 90, reasoning = None,
           additionalThreats =
             Some [''t1'', ''t2'', ''t3'', ''t4'', ''t5'', ''t6'', ''t7'', ''t8'', ''t9''] \<rparr>))))
     = Some 9"
  by (simp add: serve_url_Content [OF post_valid _ truthy_key] payload_def urlHybrid_def
      urlAiAnalysis_def ex_score newSet_def setAdd_def urlAllThreats_def truthy_def Let_def)

text \<open>
  Claim C8, as the code has it. In every result of the three handlers the threat
  indicators hold no string twice. In the URL and the logo result they are exactly the
  strings of the combined list, in the order of their first occurrence there (in the
  rule-based fallback of the URL handler, the rule threats themselves). In the email
  result they are the first 8 entries, at most, of the list deduplicated in that way.
\<close>

theorem threat_indicators_deduplicated:
  "(serve_url P k rnd now req orc = Success r \<longrightarrow>
      distinct (threatIndicators r)
      \<and> keepsFirstOccurrences
          (case aiAnalysis (analysisDetails r) of
             None \<Rightarrow> threats (calculateRiskScore (featureRecord (analysisDetails r)))
           | Some a \<Rightarrow>
               urlAllThreats (threats (calculateRiskScore (featureRecord (analysisDetails r))))
                 a (result r))
          (threatIndicators r))
   \<and> (serve_email X k' rnd' now' req' orc' = Success r' \<longrightarrow>
      distinct (threatIndicators r') \<and> length (threatIndicators r') \<le> 8
      \<and> (\<exists>a out. aiAnalysis (analysisDetails r') = Some a
            \<and> keepsFirstOccurrences
                 (emailAllThreats
                    (threats (calculateEmailRiskScore (featureRecord (analysisDetails r'))))
                    a (result r'))
                 out
            \<and> threatIndicators r' = take 8 out))
   \<and> (serve_logo P'' rnd'' now'' req'' = Success r'' \<longrightarrow>
      distinct (threatIndicators r'')
      \<and> keepsFirstOccurrences (suspicions (analysisDetails r'')) (threatIndicators r''))"
proof (intro conjI impI)
  assume s: "serve_url P k rnd now req orc = Success r"
  then show "distinct (threatIndicators r)"
    by (cases rule: serve_url_SuccessE)
      (simp_all add: urlRuleBasedOnly_def urlHybrid_def Let_def distinct_url_threats
        distinct_newSet)
  from s show "keepsFirstOccurrences
          (case aiAnalysis (analysisDetails r) of
             None \<Rightarrow> threats (calculateRiskScore (featureRecord (analysisDetails r)))
           | Some a \<Rightarrow>
               urlAllThreats (threats (calculateRiskScore (featureRecord (analysisDetails r))))
                 a (result r))
          (threatIndicators r)"
    by (cases rule: serve_url_SuccessE)
      (simp_all add: urlRuleBasedOnly_def urlHybrid_def Let_def distinct_url_threats
        keepsFirstOccurrences_distinct_refl newSet_keepsFirstOccurrences)
next
  assume "serve_email X k' rnd' now' req' orc' = Success r'"
  then obtain a0 sn sj ft where
    e: "r' = emailHybrid rnd' now' sn sj ft (calculateEmailRiskScore ft) a0"
    by (cases rule: serve_email_SuccessE) auto
  show "distinct (threatIndicators r')"
    unfolding e by (simp add: emailHybrid_def Let_def slice0_def distinct_newSet)
  show "length (threatIndicators r') \<le> 8"
    unfolding e by (simp add: emailHybrid_def Let_def slice0_def)
  show "\<exists>a out. aiAnalysis (analysisDetails r') = Some a
            \<and> keepsFirstOccurrences
                 (emailAllThreats
                    (threats (calculateEmailRiskScore (featureRecord (analysisDetails r'))))
                    a (result r'))
                 out
            \<and> threatIndicators r' = take 8 out"
    unfolding e
    by (simp add: emailHybrid_def Let_def slice0_def)
      (rule exI [of _ "newSet (emailAllThreats (threats (calculateEmailRiskScore ft)) a0
          (resultOf (combinedScoreOf (score (calculateEmailRiskScore ft))
             (aiScoreOf (emIsPhishing a0) (emConfidence a0)))))"],
       simp add: newSet_keepsFirstOccurrences)
next
  assume s: "serve_logo P'' rnd'' now'' req'' = Success r''"
  then obtain input where v: "httpMethod req'' \<noteq> ''OPTIONS''" "jsonBody req'' = Body input"
    "truthy (imageUrl input) \<or> truthy (base64Image input)"
    by (rule serve_logo_SuccessE)
  from serve_logo_valid [OF v, of P'' rnd'' now''] s
  have t: "threatIndicators r'' = newSet (suspicions (analysisDetails r''))" by auto
  show "distinct (threatIndicators r'')" unfolding t by (rule distinct_newSet)
  show "keepsFirstOccurrences (suspicions (analysisDetails r'')) (threatIndicators r'')"
    unfolding t by (rule newSet_keepsFirstOccurrences)
qed

theorem threat_indicators_deduplicated_witness:
  "map_option threatIndicators
     (payload (serve_url exampleParser (Some ''key'') (\<lambda>i. 0) ''now''
        (postJson (Some ''https://example.xyz''))
        (Content (Parsed \<lparr> isPhishing = True, aiConfidence = Some 90,
           reasoning = Some ''Suspicious top-level domain detected'',
           additionalThreats = Some [''Typosquatting'', ''Suspicious top-level domain detected'',
                                     ''Typosquatting''] \<rparr>))))
     = Some [''Suspicious top-level domain detected'', ''Typosquatting'']
   \<and> map_option (\<lambda>r. distinct (threatIndicators r))
     (payload (serve_url exampleParser (Some ''key'') (\<lambda>i. 0) ''now''
        (postJson (Some ''https://example.xyz''))
        (Content (Parsed \<lparr> isPhishing = True, aiConfidence = Some 90,
           reasoning = Some ''Suspicious top-level domain detected'',
           additionalThreats = Some [''Typosquatting'', ''Suspicious top-level domain detected'',
                                     ''Typosquatting''] \<rparr>))))
     = Some True
   \<and> map_option (\<lambda>r. (threatIndicators r, length (threatIndicators r) \<le> 8))
     (payload (serve_email (\<lambda>s j b. exampleEmailFeatures) (Some ''key'') (\<lambda>i. 0) ''now''
        (postJson \<lparr> senderField = Some ''alice@example.com'', subjectField = Some ''Hello'',
                    bodyField = Some ''Dear customer,  HELLO from us'' \<rparr>)
        (Content (Parsed \<lparr> emIsPhishing = True, emConfidence = Some 90,
           emReasoning = Some ''t3'',
           tactics = Some [''t1'', ''t2'', ''t3'', ''t4'', ''t5'', ''t1''],
           redFlags = Some [''t6'', ''t7'', ''t2'', ''t8'', ''t9''] \<rparr>))))
     = Some ([''Poor grammar quality (common in phishing)'', ''t1'', ''t2'', ''t3'', ''t4'',
              ''t5'', ''t6'', ''t7''], True)
   \<and> map_option (\<lambda>r. (threatIndicators r, distinct (threatIndicators r)))
     (payload (serve_logo exampleParser (\<lambda>i. 0) ''now''
        (postJson \<lparr> imageUrl = Some ''https://evil.example/paypal-logo.png'',
                    base64Image = None \<rparr>)))
     = Some ([''Low-signal / potentially blurred image reference'',
              ''PayPal brand on non-official source''], True)"
proof -
  let ?a = "\<lparr> isPhishing = True, aiConfidence = Some 90,
           reasoning = Some ''Suspicious top-level domain detected'',
           additionalThreats = Some [''Typosquatting'', ''Suspicious top-level domain detected'',
                                     ''Typosquatting''] \<rparr>"
  let ?b = "\<lparr> emIsPhishing = True, emConfidence = Some 90,
           emReasoning = Some ''t3'',
           tactics = Some [''t1'', ''t2'', ''t3'', ''t4'', ''t5'', ''t1''],
           redFlags = Some [''t6'', ''t7'', ''t2'', ''t8'', ''t9''] \<rparr>"
  let ?flds = "\<lparr> senderField = Some ''alice@example.com'', subjectField = Some ''Hello'',
                   bodyField = Some ''Dear customer,  HELLO from us'' \<rparr>"
  let ?i = "\<lparr> imageUrl = Some ''https://evil.example/paypal-logo.png'', base64Image = None \<rparr>"
  note T = threat_indicators_deduplicated
  have u: "\<exists>r. serve_url exampleParser (Some ''key'') (\<lambda>i. 0) ''now''
        (postJson (Some ''https://example.xyz'')) (Content (Parsed ?a)) = Success r
        \<and> threatIndicators r = [''Suspicious top-level domain detected'', ''Typosquatting'']"
    by (simp add: serve_url_Content [OF post_valid _ truthy_key] urlHybrid_def
      urlAiAnalysis_def xyz_score newSet_def setAdd_def urlAllThreats_def truthy_def
      orEmpty_def Let_def)
  have ud: "serve_url exampleParser (Some ''key'') (\<lambda>i. 0) ''now''
        (postJson (Some ''https://example.xyz'')) (Content (Parsed ?a)) = Success r
        \<Longrightarrow> distinct (threatIndicators r)" for r
    using T [THEN conjunct1] by blast
  have t: "truthy (senderField ?flds)" "truthy (subjectField ?flds)" "truthy (bodyField ?flds)"
    by (simp_all add: truthy_def)
  have e: "\<exists>r. serve_email (\<lambda>s j b. exampleEmailFeatures) (Some ''key'') (\<lambda>i. 0) ''now''
        (postJson ?flds) (Content (Parsed ?b)) = Success r
        \<and> threatIndicators r = [''Poor grammar quality (common in phishing)'', ''t1'', ''t2'',
             ''t3'', ''t4'', ''t5'', ''t6'', ''t7'']"
    by (simp add: serve_email_valid [OF post_valid t truthy_key] emailHybrid_def
      emailAiAnalysis_def email_example_score newSet_def setAdd_def emailAllThreats_def
      slice0_def truthy_def aiScoreOf_def combined_10_95 resultOf_def orDefault_def
      orEmpty_def Let_def)
  have ed: "serve_email (\<lambda>s j b. exampleEmailFeatures) (Some ''key'') (\<lambda>i. 0) ''now''
        (postJson ?flds) (Content (Parsed ?b)) = Success r
        \<Longrightarrow> length (threatIndicators r) \<le> 8" for r
    using T [THEN conjunct2, THEN conjunct1] by blast
  have l: "map_option (\<lambda>r. (result r, confidence r, threatIndicators r))
     (payload (serve_logo exampleParser (\<lambda>i. 0) ''now'' (postJson ?i)))
     = Some (Phishing, 92, [''Low-signal / potentially blurred image reference'',
                            ''PayPal brand on non-official source''])"
  proof -
    have f: "map fst (logoRuleTable ?i) = [False, False, True]" by code_simp
    have m: "paypalMismatch exampleParser ?i"
      using paypal_logo by (simp add: paypalMismatch_iff)
    have ls: "logoScore exampleParser ?i =
      (92, [''Low-signal / potentially blurred image reference'',
            ''PayPal brand on non-official source''])"
      using f m by (simp add: logoScore_def Let_def logoRuleTable_def rule_def)
    have tr: "truthy (imageUrl ?i)" by (simp add: truthy_def)
    from serve_logo_valid [OF post_valid disjI1 [OF tr], of exampleParser "\<lambda>i. 0" "''now''"]
    show ?thesis
      by (auto simp: payload_def calcLogoHeuristic_def Let_def ls newSet_def setAdd_def)
  qed
  have ld: "serve_logo exampleParser (\<lambda>i. 0) ''now'' (postJson ?i) = Success r
        \<Longrightarrow> distinct (threatIndicators r)" for r
    using T [THEN conjunct2, THEN conjunct2] by blast
  from u ud e ed l ld show ?thesis
    by (auto simp: payload_def split: response.splits)
qed

section \<open>Feature extraction is total\<close>

text \<open>
  Claim C9 says that the digit ratio is 0 for the empty string. Both branches of
  \<^verbatim>\<open>extractUrlFeatures\<close> divide by the length of the string, and \<open>0 / 0\<close> is \<^verbatim>\<open>NaN\<close>; the
  empty string cannot be parsed as a URL either (\<^verbatim>\<open>new URL("https://")\<close> throws).
\<close>

theorem digit_ratio_empty_counterexample:
  "digitRatio (extractUrlFeatures exampleParser []) = NaN
   \<and> exampleParser ''https://'' = None"
  by (simp add: extractUrlFeatures_def exampleParser_def longUrl_def startsWith_def
      jsDivide_def countMatches_def)

text \<open>
  Claim C9, as the code has it. \<^verbatim>\<open>extractUrlFeatures\<close> returns a feature record for every
  string and every behaviour of the URL parser. When the string cannot be parsed, the
  structural fields are in their empty state (domain, path and query length 0, no
  subdomain, no port, no HTTPS) and the lexical and statistical fields are computed from
  the raw string. For every non-empty string the digit ratio is the number of digits
  divided by the length. The empty string does not reach the extractor: the handler
  rejects it with status 400.
\<close>

theorem extractUrlFeatures_total:
  "(let f = extractUrlFeatures P u
    in (P (if startsWith u ''http'' then u else ''https://'' @ u) = None \<longrightarrow>
          domainLength f = 0 \<and> numSubdomains f = 0 \<and> \<not> hasPortNumber f
          \<and> pathLength f = 0 \<and> queryLength f = 0 \<and> \<not> hasHttps f
          \<and> urlLength f = length u
          \<and> numDots f = countMatches (\<lambda>c. c = CHR ''.'') u
          \<and> numHyphens f = countMatches (\<lambda>c. c = CHR ''-'') u
          \<and> numDigits f = countMatches isDigit u
          \<and> numAtSymbols f = countMatches (\<lambda>c. c = CHR ''@'') u
          \<and> hasIpAddress f = reTest reIpAddress u
          \<and> hasEncodedChars f = reTest reEncoded u
          \<and> suspiciousKeywords f
              = filter (\<lambda>kw. includesStr (toLowerCase u) kw) suspiciousKeywordList
          \<and> hasSuspiciousKeywords f = (suspiciousKeywords f \<noteq> [])
          \<and> entropy f = calculateEntropy u
          \<and> consonantRatio f = calculateConsonantRatio u)
     \<and> (u \<noteq> [] \<longrightarrow>
          digitRatio f = Num (real (countMatches isDigit u) / real (length u))))
   \<and> serve_url P k rnd now (postJson (Some [])) orc = ErrorResponse 400 ''URL is required''"
proof -
  have "list_ex Q xs = (filter Q xs \<noteq> [])" for Q :: "string \<Rightarrow> bool" and xs
    by (induction xs) auto
  then show ?thesis
    by (simp add: extractUrlFeatures_def jsDivide_def Let_def serve_url_def postJson_def
        truthy_def split: option.splits)
qed

text \<open>The string \<^verbatim>\<open>not a url 123\<close>, which the parser rejects, and \<^verbatim>\<open>https://example.com\<close>.\<close>

theorem extractUrlFeatures_total_witness:
  "(let f = extractUrlFeatures exampleParser ''not a url 123''
    in domainLength f = 0 \<and> numSubdomains f = 0 \<and> \<not> hasPortNumber f
       \<and> urlLength f = 13 \<and> numDigits f = 3 \<and> digitRatio f = Num (3 / 13)
       \<and> suspiciousKeywords f = [])
   \<and> digitRatio (extractUrlFeatures exampleParser ''https://example.com'') = Num 0"
proof -
  have p: "exampleParser (if startsWith ''not a url 123'' ''http'' then ''not a url 123''
             else ''https://'' @ ''not a url 123'') = None"
    by code_simp
  have c: "countMatches isDigit ''not a url 123'' = 3"
    "filter (\<lambda>kw. includesStr (toLowerCase ''not a url 123'') kw) suspiciousKeywordList = []"
    "countMatches isDigit ''https://example.com'' = 0"
    by code_simp+
  from extractUrlFeatures_total [of exampleParser "''not a url 123''"]
    extractUrlFeatures_total [of exampleParser "''https://example.com''"]
  show ?thesis
    using p c by (simp add: Let_def)
qed

section \<open>Integrity tag\<close>

text \<open>
  Claim C10 says that every successful result carries the integrity tag, also in the
  degraded mode. The rule-based fallback of the URL handler returns an object without
  \<^verbatim>\<open>blockchainHash\<close> and without \<^verbatim>\<open>timestamp\<close>.
\<close>

theorem fallback_without_integrity_tag_counterexample:
  "map_option (\<lambda>r. (analysisMethod (analysisDetails r), blockchainHash r, timestamp r))
     (payload (serve_url exampleParser (Some ''key'') (\<lambda>i. 0) ''now''
        (postJson (Some ''https://example.com'')) (NotOk 503)))
     = Some (''rule-based'', None, None)"
  by (simp add: serve_url_NotOk [OF post_valid _ truthy_key] payload_def urlRuleBasedOnly_def)

text \<open>
  Claim C10, as the code has it. Every successful result of the email handler and of the
  logo handler, and every result of the URL handler that carries an oracle analysis
  (method \<^verbatim>\<open>hybrid-ai\<close>), carries the tag computed from the 32 random bytes alone; the
  rule-based fallback of the URL handler carries none. The tag is \<^verbatim>\<open>0x\<close> followed by 64
  lower-case hexadecimal digits, 66 characters in all.
\<close>

theorem integrity_tag:
  "(serve_url P k rnd now req orc = Success r \<longrightarrow>
      (aiAnalysis (analysisDetails r) = None \<longrightarrow>
         analysisMethod (analysisDetails r) = ''rule-based'' \<and> blockchainHash r = None)
      \<and> (aiAnalysis (analysisDetails r) \<noteq> None \<longrightarrow>
         analysisMethod (analysisDetails r) = ''hybrid-ai''
         \<and> blockchainHash r = Some (blockchainHashOf rnd)))
   \<and> (serve_email X k' rnd' now' req' orc' = Success r' \<longrightarrow>
        blockchainHash r' = Some (blockchainHashOf rnd'))
   \<and> (serve_logo P'' rnd'' now'' req'' = Success r'' \<longrightarrow>
        blockchainHash r'' = Some (blockchainHashOf rnd''))
   \<and> length (blockchainHashOf g) = 66
   \<and> take 2 (blockchainHashOf g) = ''0x''
   \<and> set (drop 2 (blockchainHashOf g)) \<subseteq> set ''0123456789abcdef''"
proof (intro conjI impI)
  assume s: "serve_url P k rnd now req orc = Success r"
  {
    assume "aiAnalysis (analysisDetails r) = None"
    with s show "analysisMethod (analysisDetails r) = ''rule-based''" "blockchainHash r = None"
      by (cases rule: serve_url_SuccessE; simp add: urlRuleBasedOnly_def urlHybrid_def Let_def)+
  }
  {
    assume "aiAnalysis (analysisDetails r) \<noteq> None"
    with s show "analysisMethod (analysisDetails r) = ''hybrid-ai''"
      "blockchainHash r = Some (blockchainHashOf rnd)"
      by (cases rule: serve_url_SuccessE; simp add: urlRuleBasedOnly_def urlHybrid_def Let_def)+
  }
next
  assume "serve_email X k' rnd' now' req' orc' = Success r'"
  then obtain a0 sn sj ft where
    "r' = emailHybrid rnd' now' sn sj ft (calculateEmailRiskScore ft) a0"
    by (cases rule: serve_email_SuccessE) auto
  then show "blockchainHash r' = Some (blockchainHashOf rnd')"
    by (simp add: emailHybrid_def Let_def)
next
  assume s: "serve_logo P'' rnd'' now'' req'' = Success r''"
  then obtain input where v: "httpMethod req'' \<noteq> ''OPTIONS''" "jsonBody req'' = Body input"
    "truthy (imageUrl input) \<or> truthy (base64Image input)"
    by (rule serve_logo_SuccessE)
  from serve_logo_valid [OF v, of P'' rnd'' now''] s
  show "blockchainHash r'' = Some (blockchainHashOf rnd'')" by auto
next
  show "length (blockchainHashOf g) = 66" "take 2 (blockchainHashOf g) = ''0x''"
    "set (drop 2 (blockchainHashOf g)) \<subseteq> set ''0123456789abcdef''"
    using blockchainHash_format [of g] by blast+
qed

text \<open>With every random byte equal to \<^verbatim>\<open>0xab\<close>.\<close>

theorem integrity_tag_witness:
  "map_option blockchainHash
     (payload (serve_url exampleParser (Some ''key'') (\<lambda>i. 171) ''now''
        (postJson (Some ''https://example.xyz''))
        (Content (Parsed \<lparr> isPhishing = True, aiConfidence = Some 40,
            reasoning = None, additionalThreats = None \<rparr>))))
     = Some (Some ''0xabababababababababababababababababababababababababababababababab'')
   \<and> map_option blockchainHash
     (payload (serve_url exampleParser (Some ''key'') (\<lambda>i. 171) ''now''
        (postJson (Some ''https://example.xyz'')) (NotOk 503)))
     = Some None
   \<and> map_option blockchainHash
     (payload (serve_email (\<lambda>s j b. exampleEmailFeatures) (Some ''key'') (\<lambda>i. 171) ''now''
        (postJson \<lparr> senderField = Some ''alice@example.com'', subjectField = Some ''Hello'',
                    bodyField = Some ''Dear customer,  HELLO from us'' \<rparr>) (NotOk 503)))
     = Some (Some ''0xabababababababababababababababababababababababababababababababab'')
   \<and> map_option blockchainHash
     (payload (serve_logo exampleParser (\<lambda>i. 171) ''now''
        (postJson \<lparr> imageUrl = None,
                    base64Image = Some ''data:image/png;base64,iVBORw0KGgo='' \<rparr>)))
     = Some (Some ''0xabababababababababababababababababababababababababababababababab'')"
proof -
  let ?a = "\<lparr> isPhishing = True, aiConfidence = Some 40,
            reasoning = None, additionalThreats = None \<rparr>"
  let ?flds = "\<lparr> senderField = Some ''alice@example.com'', subjectField = Some ''Hello'',
                   bodyField = Some ''Dear customer,  HELLO from us'' \<rparr>"
  let ?i = "\<lparr> imageUrl = None, base64Image = Some ''data:image/png;base64,iVBORw0KGgo='' \<rparr>"
  note T = integrity_tag
  have 1: "\<exists>r. serve_url exampleParser (Some ''key'') (\<lambda>i. 171) ''now''
        (postJson (Some ''https://example.xyz'')) (Content (Parsed ?a)) = Success r
        \<and> aiAnalysis (analysisDetails r) \<noteq> None"
    by (simp add: serve_url_Content [OF post_valid _ truthy_key] urlHybrid_def Let_def)
  have 2: "\<exists>r. serve_url exampleParser (Some ''key'') (\<lambda>i. 171) ''now''
        (postJson (Some ''https://example.xyz'')) (NotOk 503) = Success r
        \<and> aiAnalysis (analysisDetails r) = None"
    by (simp add: serve_url_NotOk [OF post_valid _ truthy_key] urlRuleBasedOnly_def)
  have t: "truthy (senderField ?flds)" "truthy (subjectField ?flds)" "truthy (bodyField ?flds)"
    by (simp_all add: truthy_def)
  have 3: "\<exists>r. serve_email (\<lambda>s j b. exampleEmailFeatures) (Some ''key'') (\<lambda>i. 171) ''now''
        (postJson ?flds) (NotOk 503) = Success r"
    by (simp add: serve_email_valid [OF post_valid t truthy_key])
  have tb: "truthy (base64Image ?i)" by (simp add: truthy_def)
  have 4: "\<exists>r. serve_logo exampleParser (\<lambda>i. 171) ''now'' (postJson ?i) = Success r"
    using serve_logo_valid [OF post_valid disjI2 [OF tb], of exampleParser "\<lambda>i. 171" "''now''"]
    by blast
  from 1 T [THEN conjunct1, of exampleParser "Some ''key''" "\<lambda>i. 171" "''now''"
      "postJson (Some ''https://example.xyz'')" "Content (Parsed ?a)"]
  have a: "map_option blockchainHash
     (payload (serve_url exampleParser (Some ''key'') (\<lambda>i. 171) ''now''
        (postJson (Some ''https://example.xyz'')) (Content (Parsed ?a))))
     = Some (Some (blockchainHashOf (\<lambda>i. 171)))"
    by (auto simp: payload_def)
  from 2 T [THEN conjunct1, of exampleParser "Some ''key''" "\<lambda>i. 171" "''now''"
      "postJson (Some ''https://example.xyz'')" "NotOk 503"]
  have b: "map_option blockchainHash
     (payload (serve_url exampleParser (Some ''key'') (\<lambda>i. 171) ''now''
        (postJson (Some ''https://example.xyz'')) (NotOk 503))) = Some None"
    by (auto simp: payload_def)
  from 3 T [THEN conjunct2, THEN conjunct1, of "\<lambda>s j b. exampleEmailFeatures" "Some ''key''"
      "\<lambda>i. 171" "''now''" "postJson ?flds" "NotOk 503"]
  have c: "map_option blockchainHash
     (payload (serve_email (\<lambda>s j b. exampleEmailFeatures) (Some ''key'') (\<lambda>i. 171) ''now''
        (postJson ?flds) (NotOk 503))) = Some (Some (blockchainHashOf (\<lambda>i. 171)))"
    by (auto simp: payload_def)
  from 4 T [THEN conjunct2, THEN conjunct2, THEN conjunct1, of exampleParser "\<lambda>i. 171" "''now''"
      "postJson ?i"]
  have d: "map_option blockchainHash
     (payload (serve_logo exampleParser (\<lambda>i. 171) ''now'' (postJson ?i)))
       = Some (Some (blockchainHashOf (\<lambda>i. 171)))"
    by (auto simp: payload_def)
  from a b c d show ?thesis
    unfolding example_tag by simp
qed

end
